theory Spec2Isabelle
  imports Main "HOL-Library.Word"
begin

section \<open>Go values as the code observes them\<close>

text \<open>
  A \<^verbatim>\<open>[]byte\<close> is a list of bytes; Isabelle's characters are bytes, so a
  \<^verbatim>\<open>[]byte\<close> and a Go \<^verbatim>\<open>string\<close> are both a \<^typ>\<open>string\<close>.
\<close>

type_synonym bytes = string

text \<open>
  An \<^verbatim>\<open>http.Header\<close> (a \<^verbatim>\<open>map[string][]string\<close>) is the list of its entries.
  Where the code ranges over such a map, the list is read in the order the loop visits
  the entries (Go leaves that order unspecified).
\<close>

type_synonym Header = "(string \<times> string list) list"

text \<open>
  A Go \<^verbatim>\<open>error\<close> is an interface value. The code calls \<^verbatim>\<open>Error()\<close> on it and
  probes it by type assertion for three further interfaces: \<^verbatim>\<open>json.Marshaler\<close>,
  \<^verbatim>\<open>Headerer\<close> and \<^verbatim>\<open>StatusCoder\<close> (server.go, lines 81-90). An error value is
  modelled by what these calls return: \<open>None\<close> where the dynamic type does not
  implement the interface, \<open>Some r\<close> where it does and the method returns \<open>r\<close>.
  \<^verbatim>\<open>MarshalJSON\<close> returns \<^verbatim>\<open>([]byte, error)\<close>: \<open>Inl\<close> is a non-nil error.
\<close>

datatype error = GoError
  (Error: string)
  (asMarshaler: "(error + bytes) option")
  (asHeaderer: "Header option")
  (asStatusCoder: "int option")

text \<open>The status codes of \<^verbatim>\<open>net/http\<close> that the code names.\<close>

definition StatusOK :: int where "StatusOK = 200"
definition StatusNoContent :: int where "StatusNoContent = 204"
definition StatusInternalServerError :: int where "StatusInternalServerError = 500"

subsection \<open>The response writer\<close>

text \<open>
  \<^verbatim>\<open>http.ResponseWriter\<close> is an interface, so a writer is the record of its methods,
  each acting on the state \<open>'s\<close> that the writer is part of. \<^verbatim>\<open>w.Header()\<close> returns
  the writer's header map, which the code only ever changes by
  \<^verbatim>\<open>w.Header().Set(k, v)\<close> and \<^verbatim>\<open>w.Header().Add(k, v)\<close>; these two are operations of
  the record, so that nothing is assumed about how \<^verbatim>\<open>net/http\<close> stores headers.
  \<^verbatim>\<open>Write\<close> returns the number of bytes accepted and an error (\<open>None\<close> is nil).
\<close>

record 's ResponseWriter =
  Header :: "'s \<Rightarrow> Header"
  Header_Set :: "string \<Rightarrow> string \<Rightarrow> 's \<Rightarrow> 's"
  Header_Add :: "string \<Rightarrow> string \<Rightarrow> 's \<Rightarrow> 's"
  WriteHeader :: "int \<Rightarrow> 's \<Rightarrow> 's"
  Write :: "bytes \<Rightarrow> 's \<Rightarrow> (int \<times> error option) \<times> 's"

text \<open>
  The loop that both encoders run over the headers a value provides
  (server.go, lines 64-68 and 104-108):
  \<^verbatim>\<open>for k, values := range headerer.Headers() { for _, v := range values { w.Header().Add(k, v) } }\<close>
\<close>

fun add_values :: "'s ResponseWriter \<Rightarrow> string \<Rightarrow> string list \<Rightarrow> 's \<Rightarrow> 's" where
  "add_values w k [] s = s"
| "add_values w k (v # values) s = add_values w k values (Header_Add w k v s)"

fun add_headers :: "'s ResponseWriter \<Rightarrow> Header \<Rightarrow> 's \<Rightarrow> 's" where
  "add_headers w [] s = s"
| "add_headers w ((k, values) # hs) s = add_headers w hs (add_values w k values s)"

section \<open>server.go: the encoders\<close>

text \<open>
  \<^verbatim>\<open>DefaultErrorEncoder\<close> (server.go, lines 55-76). The source ignores its context
  argument.
\<close>

definition DefaultErrorEncoder :: "'c \<Rightarrow> error \<Rightarrow> 's ResponseWriter \<Rightarrow> 's \<Rightarrow> 's" where
  "DefaultErrorEncoder ctx err w s =
    (let (contentType, body) = (''text/plain; charset=utf-8'', Error err);
         (contentType, body) =
           (case asMarshaler err of
              Some (Inr jsonBody) \<Rightarrow> (''application/json; charset=utf-8'', jsonBody)
            | Some (Inl marshalErr) \<Rightarrow> (contentType, body)
            | None \<Rightarrow> (contentType, body));
         s = Header_Set w ''Content-Type'' contentType s;
         s = (case asHeaderer err of
                Some headers \<Rightarrow> add_headers w headers s
              | None \<Rightarrow> s);
         code = StatusInternalServerError;
         code = (case asStatusCoder err of Some sc \<Rightarrow> sc | None \<Rightarrow> code);
         s = WriteHeader w code s;
         (_, s) = Write w body s
     in s)"

text \<open>
  \<^verbatim>\<open>EncodeJSONResponse[O any]\<close> (server.go, lines 97-119) probes the response for
  \<^verbatim>\<open>Headerer\<close> and \<^verbatim>\<open>StatusCoder\<close> and hands it to \<^verbatim>\<open>encoding/json\<close>. What the
  run-time type of a response of type \<open>'o\<close> offers is a record of three functions:
  the two type assertions, and \<^verbatim>\<open>json.Marshal\<close> on values of that type.
\<close>

record 'o probes =
  asHeaderer_of :: "'o \<Rightarrow> Header option"
  asStatusCoder_of :: "'o \<Rightarrow> int option"
  json_Marshal :: "'o \<Rightarrow> error + bytes"

text \<open>
  \<^verbatim>\<open>json.NewEncoder(w).Encode(v)\<close> of \<^verbatim>\<open>encoding/json\<close>: it marshals \<open>v\<close>; on an
  error it returns the error and writes nothing; otherwise it writes the encoding
  followed by a newline character in one \<^verbatim>\<open>Write\<close>, and returns that call's error.
\<close>

definition Encoder_Encode ::
  "('o \<Rightarrow> error + bytes) \<Rightarrow> 's ResponseWriter \<Rightarrow> 'o \<Rightarrow> 's \<Rightarrow> error option \<times> 's" where
  "Encoder_Encode marshal w v s =
    (case marshal v of
       Inl err \<Rightarrow> (Some err, s)
     | Inr b \<Rightarrow> (let ((n, err), s) = Write w (b @ [CHR 0x0A]) s in (err, s)))"

definition EncodeJSONResponse ::
  "'o probes \<Rightarrow> 'c \<Rightarrow> 's ResponseWriter \<Rightarrow> 'o \<Rightarrow> 's \<Rightarrow> error option \<times> 's" where
  "EncodeJSONResponse T ctx w response s =
    (let r = response;
         s = Header_Set w ''Content-Type'' ''application/json; charset=utf-8'' s;
         s = (case asHeaderer_of T r of
                Some headers \<Rightarrow> add_headers w headers s
              | None \<Rightarrow> s);
         code = StatusOK;
         code = (case asStatusCoder_of T r of Some sc \<Rightarrow> sc | None \<Rightarrow> code);
         s = WriteHeader w code s
     in if code = StatusNoContent then (None, s)
        else Encoder_Encode (json_Marshal T) w response s)"

section \<open>server.go: the status-code wrapper\<close>

text \<open>
  \<^verbatim>\<open>ReponseCode\<close> (server.go, lines 262-283) pairs a response \<^verbatim>\<open>resp any\<close> with a
  \<^verbatim>\<open>code int\<close>. \<^verbatim>\<open>MarshalJSON\<close> calls \<^verbatim>\<open>json.Marshal(r.resp)\<close>; the argument
  \<open>marshal\<close> is \<^verbatim>\<open>json.Marshal\<close> on the type of the wrapped value.
\<close>

record 'v ReponseCode =
  resp :: 'v
  code :: int

definition ReponseCode_StatusCode :: "'v ReponseCode \<Rightarrow> int" where
  "ReponseCode_StatusCode r = code r"

definition ReponseCode_MarshalJSON ::
  "('v \<Rightarrow> error + bytes) \<Rightarrow> 'v ReponseCode \<Rightarrow> error + bytes" where
  "ReponseCode_MarshalJSON marshal r = marshal (resp r)"

definition AddStatusCode :: "'v \<Rightarrow> int \<Rightarrow> 'v ReponseCode" where
  "AddStatusCode response c = \<lparr> resp = response, code = c \<rparr>"

text \<open>
  What \<^verbatim>\<open>encoding/json\<close> does with a value that implements \<^verbatim>\<open>json.Marshaler\<close>: it
  calls \<^verbatim>\<open>MarshalJSON\<close>, wraps an error of that call (in a \<^verbatim>\<open>*MarshalerError\<close>),
  and otherwise validates and compacts the bytes the call returned. The wrapping and
  the compaction belong to the library and are arguments here.
\<close>

definition Marshal_Marshaler ::
  "(bytes \<Rightarrow> error + bytes) \<Rightarrow> (error \<Rightarrow> error) \<Rightarrow> error + bytes \<Rightarrow> error + bytes" where
  "Marshal_Marshaler compact MarshalerError res =
    (case res of
       Inl err \<Rightarrow> Inl (MarshalerError err)
     | Inr b \<Rightarrow> compact b)"

text \<open>
  What the run-time type \<^verbatim>\<open>*ReponseCode\<close> offers (server.go, lines 258-259 assert
  the two interfaces; the type has no \<^verbatim>\<open>Headers\<close> method).
\<close>

definition ReponseCode_probes ::
  "(bytes \<Rightarrow> error + bytes) \<Rightarrow> (error \<Rightarrow> error) \<Rightarrow> ('v \<Rightarrow> error + bytes) \<Rightarrow>
     'v ReponseCode probes" where
  "ReponseCode_probes compact MarshalerError marshal =
    \<lparr> asHeaderer_of = (\<lambda>r. None),
      asStatusCoder_of = (\<lambda>r. Some (ReponseCode_StatusCode r)),
      json_Marshal = (\<lambda>r.
        Marshal_Marshaler compact MarshalerError (ReponseCode_MarshalJSON marshal r)) \<rparr>"

section \<open>server.go: the intercepting writer\<close>

text \<open>
  \<^verbatim>\<open>interceptingWriter\<close> (server.go, lines 239-243): the embedded
  \<^verbatim>\<open>http.ResponseWriter\<close>, acting on a state \<open>'u\<close>, the recorded \<^verbatim>\<open>code int\<close> and
  \<^verbatim>\<open>written int64\<close>. The code only stores and compares \<^verbatim>\<open>code\<close>, so it is an
  \<^typ>\<open>int\<close>; \<^verbatim>\<open>written\<close> is added to, so it is a 64-bit word and \<open>+\<close> wraps as
  Go's \<^verbatim>\<open>int64\<close> does. \<^verbatim>\<open>int64(n)\<close> is \<^term>\<open>word_of_int n\<close>.
\<close>

record 'u interceptingWriter =
  ResponseWriter :: "'u ResponseWriter"
  code :: int
  written :: "64 word"

text \<open>
  The methods have a pointer receiver: each returns the updated receiver beside the
  state of the wrapped writer (server.go, lines 247-256). \<^verbatim>\<open>Header\<close> is promoted from
  the embedded writer.
\<close>

definition interceptingWriter_WriteHeader ::
  "'u interceptingWriter \<Rightarrow> int \<Rightarrow> 'u \<Rightarrow> 'u interceptingWriter \<times> 'u" where
  "interceptingWriter_WriteHeader w c u =
    (let w = w\<lparr>code := c\<rparr>;
         u = WriteHeader (ResponseWriter w) c u
     in (w, u))"

definition interceptingWriter_Write ::
  "'u interceptingWriter \<Rightarrow> bytes \<Rightarrow> 'u \<Rightarrow> (int \<times> error option) \<times> 'u interceptingWriter \<times> 'u" where
  "interceptingWriter_Write w p u =
    (let ((n, err), u) = Write (ResponseWriter w) p u;
         w = w\<lparr>written := written w + word_of_int n\<rparr>
     in ((n, err), w, u))"

text \<open>
  One call of \<^verbatim>\<open>ServeHTTP\<close> runs on a store: \<open>ext\<close> is everything that outlives the
  call (the transport behind the writer, and whatever else the callbacks touch) and
  \<open>iw\<close> is the call's \<^verbatim>\<open>interceptingWriter\<close> object. The source allocates that
  object only when finalizers are configured; without them nothing refers to the
  component and it is dropped at the end of the call.
\<close>

record 'u store =
  ext :: 'u
  iw :: "'u interceptingWriter"

text \<open>
  The two interface values that \<^verbatim>\<open>ServeHTTP\<close> hands to its callbacks as \<^verbatim>\<open>w\<close>: the
  caller's writer itself, and the pointer \<^verbatim>\<open>iw\<close> (server.go, line 161), whose methods
  are the ones above.
\<close>

definition direct :: "'u ResponseWriter \<Rightarrow> 'u store ResponseWriter" where
  "direct w =
    \<lparr> Header = (\<lambda>st. Header w (ext st)),
      Header_Set = (\<lambda>k v st. st\<lparr>ext := Header_Set w k v (ext st)\<rparr>),
      Header_Add = (\<lambda>k v st. st\<lparr>ext := Header_Add w k v (ext st)\<rparr>),
      WriteHeader = (\<lambda>c st. st\<lparr>ext := WriteHeader w c (ext st)\<rparr>),
      Write = (\<lambda>p st. let (res, u) = Write w p (ext st) in (res, st\<lparr>ext := u\<rparr>)) \<rparr>"

definition via_iw :: "'u store ResponseWriter" where
  "via_iw =
    \<lparr> Header = (\<lambda>st. Header (ResponseWriter (iw st)) (ext st)),
      Header_Set = (\<lambda>k v st. st\<lparr>ext := Header_Set (ResponseWriter (iw st)) k v (ext st)\<rparr>),
      Header_Add = (\<lambda>k v st. st\<lparr>ext := Header_Add (ResponseWriter (iw st)) k v (ext st)\<rparr>),
      WriteHeader = (\<lambda>c st.
        let (w, u) = interceptingWriter_WriteHeader (iw st) c (ext st)
        in st\<lparr>ext := u, iw := w\<rparr>),
      Write = (\<lambda>p st.
        let (res, w, u) = interceptingWriter_Write (iw st) p (ext st)
        in (res, st\<lparr>ext := u, iw := w\<rparr>)) \<rparr>"

section \<open>server.go: the server\<close>

text \<open>
  A \<^verbatim>\<open>context.Context\<close> is the chain of its \<^verbatim>\<open>WithValue\<close> frames, the newest first;
  \<^verbatim>\<open>Value\<close> finds the newest frame of a key. The values the code stores are the
  response headers and the response size; \<open>User_val\<close> stands for whatever else the
  caller and the hooks store. The size is an \<^verbatim>\<open>int64\<close>, copied when it is stored. The
  headers are an \<^verbatim>\<open>http.Header\<close>, a map, so what is stored refers to the live map of
  the writer: \<open>Headers_ref get\<close> holds the way to read that map in the state \<open>'u\<close> the
  writer is part of, and whoever holds the context reads the entries the map has at
  that moment.
\<close>

datatype ('x, 'u) ctx_value = Headers_ref "'u \<Rightarrow> Header" | Int64_val "64 word" | User_val 'x

type_synonym ('k, 'x, 'u) Context = "('k \<times> ('x, 'u) ctx_value) list"

definition WithValue ::
  "('k, 'x, 'u) Context \<Rightarrow> 'k \<Rightarrow> ('x, 'u) ctx_value \<Rightarrow> ('k, 'x, 'u) Context" where
  "WithValue ctx key val = (key, val) # ctx"

definition Value :: "('k, 'x, 'u) Context \<Rightarrow> 'k \<Rightarrow> ('x, 'u) ctx_value option" where
  "Value ctx key = map_of ctx key"

text \<open>Of an \<^verbatim>\<open>*http.Request\<close> the code reads \<^verbatim>\<open>r.Context()\<close> and passes the rest on.\<close>

record ('k, 'x, 'u, 'r) Request =
  Context :: "('k, 'x, 'u) Context"
  payload :: 'r

text \<open>
  The function types of server.go, lines 12-46, 31 and 215. A Go function that returns
  \<^verbatim>\<open>(value, error)\<close> returns a sum here: the callers below read the value only when
  the error is nil. A callback acts on the state it can reach. One that is handed the
  response writer \<^verbatim>\<open>w\<close> acts on the store of the call. So does a finalizer: it runs
  after \<open>w\<close> has been handed out and is given the live header map of the writer. The
  pre-hooks, the decoder, the handler and the error router are handed neither and act
  on \<open>ext\<close>.
\<close>

type_synonym ('k, 'x, 'r, 'u) RequestFunc =
  "('k, 'x, 'u) Context \<Rightarrow> ('k, 'x, 'u, 'r) Request \<Rightarrow> 'u \<Rightarrow> ('k, 'x, 'u) Context \<times> 'u"

type_synonym ('k, 'x, 'u) ErrorEncoder =
  "('k, 'x, 'u) Context \<Rightarrow> error \<Rightarrow> 'u store ResponseWriter \<Rightarrow> 'u store \<Rightarrow> 'u store"

type_synonym ('k, 'x, 'r, 'u) ServerFinalizerFunc =
  "('k, 'x, 'u) Context \<Rightarrow> int \<Rightarrow> ('k, 'x, 'u, 'r) Request \<Rightarrow> 'u store \<Rightarrow> 'u store"

type_synonym ('k, 'x, 'r, 'i, 'u) DecodeRequestFunc =
  "('k, 'x, 'u) Context \<Rightarrow> ('k, 'x, 'u, 'r) Request \<Rightarrow> 'u \<Rightarrow> (error + 'i) \<times> 'u"

type_synonym ('k, 'x, 'o, 'u) EncodeReponseFunc =
  "('k, 'x, 'u) Context \<Rightarrow> 'u store ResponseWriter \<Rightarrow> 'o \<Rightarrow> 'u store \<Rightarrow> error option \<times> 'u store"

type_synonym ('k, 'x, 'i, 'o, 'u) HandlerFunc =
  "('k, 'x, 'u) Context \<Rightarrow> 'i \<Rightarrow> 'u \<Rightarrow> (error + 'o) \<times> 'u"

type_synonym ('k, 'x, 'u) ServerResponseFunc =
  "('k, 'x, 'u) Context \<Rightarrow> 'u store ResponseWriter \<Rightarrow> 'u store \<Rightarrow> ('k, 'x, 'u) Context \<times> 'u store"

text \<open>
  Modelled from the spec: the interface \<^verbatim>\<open>ErrorHandler\<close> of the error router, which is
  declared in a file that is not among the sources; server.go only names it (line 130)
  and calls its method \<^verbatim>\<open>Handle(ctx, err)\<close> (lines 170, 177 and 188). The spec, section
  4.4: "a single extension point invoked with (context, error)", "strictly
  observational (logging/metrics); it has no ability to alter control flow or recover
  the call". An \<open>ErrorHandler\<close> is its \<^verbatim>\<open>Handle\<close> method, acting on \<open>ext\<close>.
\<close>

type_synonym ('k, 'x, 'u) ErrorHandler = "('k, 'x, 'u) Context \<Rightarrow> error \<Rightarrow> 'u \<Rightarrow> 'u"

text \<open>
  Modelled from the spec: the adapter \<^verbatim>\<open>ErrorHandlerFunc\<close>, not among the sources
  (server.go, line 229, converts a function to it): the \<^verbatim>\<open>ErrorHandler\<close> whose
  \<^verbatim>\<open>Handle\<close> calls the function.
\<close>

definition ErrorHandlerFunc :: "('k, 'x, 'u) ErrorHandler \<Rightarrow> ('k, 'x, 'u) ErrorHandler" where
  "ErrorHandlerFunc f = (\<lambda>ctx err u. f ctx err u)"

text \<open>
  Modelled from the spec: the default router \<^verbatim>\<open>LogErrorHandler\<close>, not among the sources
  (server.go, line 229, names it). The spec, section 4.4: "Default behavior: no-op
  (errors are silently absorbed from the router's perspective; rendering still occurs
  via the error encoder)".
\<close>

definition LogErrorHandler :: "('k, 'x, 'u) ErrorHandler" where
  "LogErrorHandler ctx err u = u"

text \<open>\<^verbatim>\<open>Server[I, O]\<close> (server.go, lines 122-131).\<close>

record ('k, 'x, 'r, 'i, 'o, 'u) Server =
  h :: "('k, 'x, 'i, 'o, 'u) HandlerFunc"
  dec :: "('k, 'x, 'r, 'i, 'u) DecodeRequestFunc"
  enc :: "('k, 'x, 'o, 'u) EncodeReponseFunc"
  before :: "('k, 'x, 'r, 'u) RequestFunc list"
  after :: "('k, 'x, 'u) ServerResponseFunc list"
  errorEncoder :: "('k, 'x, 'u) ErrorEncoder"
  finalizer :: "('k, 'x, 'r, 'u) ServerFinalizerFunc list"
  errorHandler :: "('k, 'x, 'u) ErrorHandler"

text \<open>
  The options (server.go, lines 138-146 and 198-210). A \<^verbatim>\<open>ServerOption\<close> mutates the
  server it is given; here it returns the changed server.
\<close>

type_synonym ('k, 'x, 'r, 'i, 'o, 'u) ServerOption =
  "('k, 'x, 'r, 'i, 'o, 'u) Server \<Rightarrow> ('k, 'x, 'r, 'i, 'o, 'u) Server"

definition ServerErrorHandler ::
  "('k, 'x, 'u) ErrorHandler \<Rightarrow> ('k, 'x, 'r, 'i, 'o, 'u) ServerOption" where
  "ServerErrorHandler eh = (\<lambda>s. s\<lparr>errorHandler := eh\<rparr>)"

definition ServerFinalizer ::
  "('k, 'x, 'r, 'u) ServerFinalizerFunc list \<Rightarrow> ('k, 'x, 'r, 'i, 'o, 'u) ServerOption" where
  "ServerFinalizer f = (\<lambda>s. s\<lparr>finalizer := finalizer s @ f\<rparr>)"

definition ServerBefore ::
  "('k, 'x, 'r, 'u) RequestFunc list \<Rightarrow> ('k, 'x, 'r, 'i, 'o, 'u) ServerOption" where
  "ServerBefore fs = (\<lambda>s. s\<lparr>before := before s @ fs\<rparr>)"

definition ServerAfter ::
  "('k, 'x, 'u) ServerResponseFunc list \<Rightarrow> ('k, 'x, 'r, 'i, 'o, 'u) ServerOption" where
  "ServerAfter fs = (\<lambda>s. s\<lparr>after := after s @ fs\<rparr>)"

text \<open>\<^verbatim>\<open>NewServer\<close> (server.go, lines 218-237); a nil slice is the empty list.\<close>

definition NewServer ::
  "('k, 'x, 'i, 'o, 'u) HandlerFunc \<Rightarrow> ('k, 'x, 'r, 'i, 'u) DecodeRequestFunc \<Rightarrow>
   ('k, 'x, 'o, 'u) EncodeReponseFunc \<Rightarrow> ('k, 'x, 'r, 'i, 'o, 'u) ServerOption list \<Rightarrow>
   ('k, 'x, 'r, 'i, 'o, 'u) Server" where
  "NewServer H D E options =
    (let s = \<lparr> h = H, dec = D, enc = E, before = [], after = [],
               errorEncoder = DefaultErrorEncoder, finalizer = [],
               errorHandler = ErrorHandlerFunc LogErrorHandler \<rparr>
     in fold (\<lambda>option s. option s) options s)"

subsection \<open>ServeHTTP\<close>

text \<open>
  To state which callbacks a call invokes, in which order and with which arguments,
  the model of \<^verbatim>\<open>ServeHTTP\<close> keeps a log beside the store: every call of a
  callback appends one event (the position of a hook or finalizer in its slice, the
  arguments other than the writer and the request, and the result of a fallible
  call). The callbacks never see the log.
\<close>

datatype ('c, 'i, 'o) event =
    Call_before nat 'c
  | Call_dec 'c "error + 'i"
  | Call_h 'c 'i "error + 'o"
  | Call_after nat 'c
  | Call_enc 'c 'o "error option"
  | Call_errorHandler 'c error
  | Call_errorEncoder 'c error
  | is_Call_finalizer: Call_finalizer nat 'c int

text \<open>\<^verbatim>\<open>for _, f := range s.before { ctx = f(ctx, r) }\<close> (lines 164-166).\<close>

fun run_before ::
  "nat \<Rightarrow> ('k, 'x, 'r, 'u) RequestFunc list \<Rightarrow> ('k, 'x, 'u, 'r) Request \<Rightarrow>
   ('k, 'x, 'u) Context \<times> (('k, 'x, 'u) Context, 'i, 'o) event list \<times> 'u store \<Rightarrow>
   ('k, 'x, 'u) Context \<times> (('k, 'x, 'u) Context, 'i, 'o) event list \<times> 'u store" where
  "run_before i [] r (ctx, tr, st) = (ctx, tr, st)"
| "run_before i (f # fs) r (ctx, tr, st) =
    (let (ctx', u) = f ctx r (ext st)
     in run_before (Suc i) fs r (ctx', tr @ [Call_before i ctx], st\<lparr>ext := u\<rparr>))"

text \<open>\<^verbatim>\<open>for _, f := range s.after { ctx = f(ctx, w) }\<close> (lines 182-184).\<close>

fun run_after ::
  "nat \<Rightarrow> ('k, 'x, 'u) ServerResponseFunc list \<Rightarrow> 'u store ResponseWriter \<Rightarrow>
   ('k, 'x, 'u) Context \<times> (('k, 'x, 'u) Context, 'i, 'o) event list \<times> 'u store \<Rightarrow>
   ('k, 'x, 'u) Context \<times> (('k, 'x, 'u) Context, 'i, 'o) event list \<times> 'u store" where
  "run_after i [] w (ctx, tr, st) = (ctx, tr, st)"
| "run_after i (f # fs) w (ctx, tr, st) =
    (let (ctx', st') = f ctx w st
     in run_after (Suc i) fs w (ctx', tr @ [Call_after i ctx], st'))"

text \<open>
  The two lines that each of the three failure branches runs before it returns
  (lines 170-171, 177-178 and 188-189):
  \<^verbatim>\<open>s.errorHandler.Handle(ctx, err); s.errorEncoder(ctx, err, w)\<close>
\<close>

definition report_error ::
  "('k, 'x, 'r, 'i, 'o, 'u) Server \<Rightarrow> 'u store ResponseWriter \<Rightarrow> ('k, 'x, 'u) Context \<Rightarrow> error \<Rightarrow>
   (('k, 'x, 'u) Context, 'i, 'o) event list \<times> 'u store \<Rightarrow>
   (('k, 'x, 'u) Context, 'i, 'o) event list \<times> 'u store" where
  "report_error s w ctx err = (\<lambda>(tr, st).
    (let st = st\<lparr>ext := errorHandler s ctx err (ext st)\<rparr>;
         tr = tr @ [Call_errorHandler ctx err];
         st = errorEncoder s ctx err w st;
         tr = tr @ [Call_errorEncoder ctx err]
     in (tr, st)))"

text \<open>Lines 186-190: the encoder, and the failure branch after it.\<close>

definition ServeHTTP_encode ::
  "('k, 'x, 'r, 'i, 'o, 'u) Server \<Rightarrow> 'u store ResponseWriter \<Rightarrow> 'o \<Rightarrow>
   ('k, 'x, 'u) Context \<times> (('k, 'x, 'u) Context, 'i, 'o) event list \<times> 'u store \<Rightarrow>
   ('k, 'x, 'u) Context \<times> (('k, 'x, 'u) Context, 'i, 'o) event list \<times> 'u store" where
  "ServeHTTP_encode s w response = (\<lambda>(ctx, tr, st).
    (let (err, st) = enc s ctx w response st;
         tr = tr @ [Call_enc ctx response err]
     in case err of
          Some e \<Rightarrow> (let (tr, st) = report_error s w ctx e (tr, st) in (ctx, tr, st))
        | None \<Rightarrow> (ctx, tr, st)))"

text \<open>
  Lines 164-190, the body of the call after the writer has been chosen. It returns
  the final value of the variable \<^verbatim>\<open>ctx\<close> as well, which the deferred function reads.
\<close>

definition ServeHTTP_body ::
  "('k, 'x, 'r, 'i, 'o, 'u) Server \<Rightarrow> 'u store ResponseWriter \<Rightarrow> ('k, 'x, 'u, 'r) Request \<Rightarrow>
   ('k, 'x, 'u) Context \<times> (('k, 'x, 'u) Context, 'i, 'o) event list \<times> 'u store \<Rightarrow>
   ('k, 'x, 'u) Context \<times> (('k, 'x, 'u) Context, 'i, 'o) event list \<times> 'u store" where
  "ServeHTTP_body s w r start =
    (let (ctx, tr, st) = run_before 0 (before s) r start;
         (res, u) = dec s ctx r (ext st);
         st = st\<lparr>ext := u\<rparr>;
         tr = tr @ [Call_dec ctx res]
     in case res of
          Inl err \<Rightarrow> (let (tr, st) = report_error s w ctx err (tr, st) in (ctx, tr, st))
        | Inr req \<Rightarrow>
            (let (res, u) = h s ctx req (ext st);
                 st = st\<lparr>ext := u\<rparr>;
                 tr = tr @ [Call_h ctx req res]
             in case res of
                  Inl err \<Rightarrow> (let (tr, st) = report_error s w ctx err (tr, st) in (ctx, tr, st))
                | Inr response \<Rightarrow>
                    ServeHTTP_encode s w response (run_after 0 (after s) w (ctx, tr, st))))"

text \<open>
  The deferred function (lines 154-160). The two context keys
  \<^verbatim>\<open>ContextKeyResponseHeaders\<close> and \<^verbatim>\<open>ContextKeyResponseSize\<close> are declared outside the
  sources at hand and are the arguments \<open>kH\<close> and \<open>kS\<close>. \<^verbatim>\<open>iw.Header()\<close> is the promoted
  method of the embedded writer and returns that writer's map; \<^verbatim>\<open>iw.written\<close> is
  copied. The context is built once, before the loop; \<^verbatim>\<open>iw.code\<close> is read anew for
  each finalizer, from the store the finalizers before it have left.
\<close>

fun run_finalizer ::
  "nat \<Rightarrow> ('k, 'x, 'r, 'u) ServerFinalizerFunc list \<Rightarrow> ('k, 'x, 'u) Context \<Rightarrow>
   ('k, 'x, 'u, 'r) Request \<Rightarrow>
   (('k, 'x, 'u) Context, 'i, 'o) event list \<times> 'u store \<Rightarrow>
   (('k, 'x, 'u) Context, 'i, 'o) event list \<times> 'u store" where
  "run_finalizer i [] ctx r (tr, st) = (tr, st)"
| "run_finalizer i (f # fs) ctx r (tr, st) =
    run_finalizer (Suc i) fs ctx r
      (tr @ [Call_finalizer i ctx (code (iw st))], f ctx (code (iw st)) r st)"

definition ServeHTTP_deferred ::
  "'k \<Rightarrow> 'k \<Rightarrow> ('k, 'x, 'r, 'i, 'o, 'u) Server \<Rightarrow> ('k, 'x, 'u, 'r) Request \<Rightarrow>
   ('k, 'x, 'u) Context \<times> (('k, 'x, 'u) Context, 'i, 'o) event list \<times> 'u store \<Rightarrow>
   (('k, 'x, 'u) Context, 'i, 'o) event list \<times> 'u store" where
  "ServeHTTP_deferred kH kS s r = (\<lambda>(ctx, tr, st).
    (let ctx = WithValue ctx kH (Headers_ref (Header (ResponseWriter (iw st))));
         ctx = WithValue ctx kS (Int64_val (written (iw st)))
     in run_finalizer 0 (finalizer s) ctx r (tr, st)))"

text \<open>
  \<^verbatim>\<open>ServeHTTP\<close> (lines 149-191): from the caller's writer, the request and the state
  before the call to the log of the call and the state after it. With finalizers, the
  body runs on the pointer to a fresh \<^verbatim>\<open>interceptingWriter{w, http.StatusOK, 0}\<close> and
  the deferred function runs after it. Without them the body runs on \<open>w\<close> itself;
  the store then holds an intercepting writer that no writer refers to.
\<close>

definition ServeHTTP ::
  "'k \<Rightarrow> 'k \<Rightarrow> ('k, 'x, 'r, 'i, 'o, 'u) Server \<Rightarrow> 'u ResponseWriter \<Rightarrow> ('k, 'x, 'u, 'r) Request \<Rightarrow> 'u \<Rightarrow>
   (('k, 'x, 'u) Context, 'i, 'o) event list \<times> 'u" where
  "ServeHTTP kH kS s w r u =
    (let ctx = Context r
     in if length (finalizer s) > 0 then
          (let iw0 = \<lparr> ResponseWriter = w, code = StatusOK, written = 0 \<rparr>;
               (ctx, tr, st) = ServeHTTP_body s via_iw r (ctx, [], \<lparr> ext = u, iw = iw0 \<rparr>);
               (tr, st) = ServeHTTP_deferred kH kS s r (ctx, tr, st)
           in (tr, ext st))
        else
          (let unused = \<lparr> ResponseWriter = w, code = StatusOK, written = 0 \<rparr>;
               (ctx, tr, st) = ServeHTTP_body s (direct w) r (ctx, [], \<lparr> ext = u, iw = unused \<rparr>)
           in (tr, ext st)))"

text \<open>
  The stage an event belongs to, and for a fallible stage whether it succeeded: the
  log of a call read without the arguments.
\<close>

datatype stage =
    Pre_hook nat | Decode bool | Handle bool | Post_hook nat | Encode bool
  | Route | Encode_error | is_Finalize: Finalize nat

fun stage_of :: "('c, 'i, 'o) event \<Rightarrow> stage" where
  "stage_of (Call_before i ctx) = Pre_hook i"
| "stage_of (Call_dec ctx res) = Decode (case res of Inl err \<Rightarrow> False | Inr req \<Rightarrow> True)"
| "stage_of (Call_h ctx req res) = Handle (case res of Inl err \<Rightarrow> False | Inr response \<Rightarrow> True)"
| "stage_of (Call_after i ctx) = Post_hook i"
| "stage_of (Call_enc ctx response err) = Encode (case err of Some e \<Rightarrow> False | None \<Rightarrow> True)"
| "stage_of (Call_errorHandler ctx err) = Route"
| "stage_of (Call_errorEncoder ctx err) = Encode_error"
| "stage_of (Call_finalizer i ctx c) = Finalize i"

section \<open>batch: Chunk\<close>

text \<open>
  \<^verbatim>\<open>make([]T, 0, size)\<close> of the Go runtime (\<^verbatim>\<open>runtime.makeslice\<close>) panics with
  "makeslice: cap out of range" when the capacity is negative or when the capacity
  times the size of an element exceeds the largest allocation of the platform
  (\<^verbatim>\<open>maxAlloc\<close>, which is \<open>2 ^ 48\<close> bytes on linux/amd64). The size of an element of
  \<^verbatim>\<open>T\<close> and \<^verbatim>\<open>maxAlloc\<close> are arguments. Running out of memory below that bound is
  not modelled.
\<close>

datatype panic = Makeslice_cap_out_of_range

definition makeslice_ok :: "nat \<Rightarrow> nat \<Rightarrow> int \<Rightarrow> bool" where
  "makeslice_ok elem_size maxAlloc cap = (0 \<le> cap \<and> int elem_size * cap \<le> int maxAlloc)"

text \<open>
  \<^verbatim>\<open>Chunk\<close> starts one goroutine that receives from the channel \<^verbatim>\<open>items\<close> until it is
  closed and sends the result of every \<^verbatim>\<open>exec\<close> on the unbuffered channel \<^verbatim>\<open>errs\<close>,
  which it closes at the end. The model is that goroutine, run on the finite sequence
  of items the channel delivers before it is closed, with a reader that takes every
  value off \<^verbatim>\<open>errs\<close>: it returns the values sent, in order, or the panic of the
  first \<^verbatim>\<open>make\<close>, which stops the goroutine before it receives an item. \<^verbatim>\<open>exec\<close> may
  have effects, so it acts on a state. The argument \<open>sz\<close> is the source's \<^verbatim>\<open>size\<close>, a
  Go \<^verbatim>\<open>int\<close>.
  \<^verbatim>\<open>counter\<close> is an \<^typ>\<open>int\<close>: for \<open>1 \<le> sz\<close> it never exceeds \<open>sz\<close>, so Go's
  machine integer never wraps. The later \<^verbatim>\<open>make\<close> calls have the capacity of the
  first, which succeeded.
\<close>

fun Chunk_loop ::
  "int \<Rightarrow> ('a list \<Rightarrow> 's \<Rightarrow> error option \<times> 's) \<Rightarrow> 'a list \<Rightarrow>
   'a list \<times> int \<times> error option list \<times> 's \<Rightarrow> 'a list \<times> int \<times> error option list \<times> 's" where
  "Chunk_loop sz exec [] (bucket, counter, errs, st) = (bucket, counter, errs, st)"
| "Chunk_loop sz exec (item # items) (bucket, counter, errs, st) =
    (let bucket = bucket @ [item];
         counter = counter + 1
     in if counter = sz then
          (let (e, st) = exec bucket st
           in Chunk_loop sz exec items ([], 0, errs @ [e], st))
        else Chunk_loop sz exec items (bucket, counter, errs, st))"

definition Chunk ::
  "nat \<Rightarrow> nat \<Rightarrow> int \<Rightarrow> 'a list \<Rightarrow> ('a list \<Rightarrow> 's \<Rightarrow> error option \<times> 's) \<Rightarrow> 's \<Rightarrow>
   panic + error option list \<times> 's" where
  "Chunk elem_size maxAlloc sz items exec st =
    (if \<not> makeslice_ok elem_size maxAlloc sz then Inl Makeslice_cap_out_of_range
     else
       (let (bucket, counter, errs, st) = Chunk_loop sz exec items ([], 0, [], st)
        in if length bucket \<noteq> 0 then
             (let (e, st) = exec bucket st in Inr (errs @ [e], st))
           else Inr (errs, st)))"

text \<open>
  For the statement about \<^verbatim>\<open>Chunk\<close>: running \<^verbatim>\<open>exec\<close> once on each list of a list of
  lists, in order, and collecting the results.
\<close>

fun exec_each ::
  "('a list \<Rightarrow> 's \<Rightarrow> error option \<times> 's) \<Rightarrow> 'a list list \<Rightarrow> 's \<Rightarrow> error option list \<times> 's" where
  "exec_each exec [] st = ([], st)"
| "exec_each exec (c # cs) st =
    (let (e, st) = exec c st;
         (es, st) = exec_each exec cs st
     in (e # es, st))"

section \<open>Writers for observation\<close>

text \<open>
  A writer that forwards every call to the writer it wraps and notes the call in a
  list beside the wrapped writer's state. An encoder run on it shows the calls it
  makes.
\<close>

datatype wcall =
    Set_call string string
  | Add_call string string
  | is_WriteHeader_call: WriteHeader_call int
  | is_Write_call: Write_call bytes

definition logging :: "'s ResponseWriter \<Rightarrow> ('s \<times> wcall list) ResponseWriter" where
  "logging w =
    \<lparr> Header = (\<lambda>(s, l). Header w s),
      Header_Set = (\<lambda>k v (s, l). (Header_Set w k v s, l @ [Set_call k v])),
      Header_Add = (\<lambda>k v (s, l). (Header_Add w k v s, l @ [Add_call k v])),
      WriteHeader = (\<lambda>c (s, l). (WriteHeader w c s, l @ [WriteHeader_call c])),
      Write = (\<lambda>p (s, l).
        let (res, s') = Write w p s in (res, (s', l @ [Write_call p]))) \<rparr>"

text \<open>The \<^verbatim>\<open>Add\<close> calls that the loop over a header map makes, in order.\<close>

fun Add_calls :: "Header \<Rightarrow> wcall list" where
  "Add_calls [] = []"
| "Add_calls ((k, values) # hs) = map (Add_call k) values @ Add_calls hs"

text \<open>
  A writer without a state of its own, for concrete runs: it keeps no headers, and
  \<open>result\<close> decides what each \<^verbatim>\<open>Write\<close> returns.
\<close>

definition stub :: "(bytes \<Rightarrow> int \<times> error option) \<Rightarrow> unit ResponseWriter" where
  "stub result =
    \<lparr> Header = (\<lambda>s. []),
      Header_Set = (\<lambda>k v s. s),
      Header_Add = (\<lambda>k v s. s),
      WriteHeader = (\<lambda>c s. s),
      Write = (\<lambda>p s. (result p, s)) \<rparr>"

definition accept_all :: "bytes \<Rightarrow> int \<times> error option" where
  "accept_all p = (int (length p), None)"

text \<open>An \<^verbatim>\<open>Exec\<close> for concrete runs of \<^verbatim>\<open>Chunk\<close>: it notes its argument and returns nil.\<close>

definition note_items :: "'a list \<Rightarrow> 'a list list \<Rightarrow> error option \<times> 'a list list" where
  "note_items bucket st = (None, st @ [bucket])"

section \<open>A sample server\<close>

text \<open>
  A server for concrete runs: its decoder returns the given result, its handler
  returns the request as the response, its encoder is \<^verbatim>\<open>EncodeJSONResponse\<close> on
  responses that are their own JSON text, it has one finalizer, and its error encoder
  is the second argument. It runs on a logging writer, so the state is the list of
  calls made on the transport.
\<close>

definition sample_server ::
  "error + string \<Rightarrow> (nat, unit, unit \<times> wcall list) ErrorEncoder \<Rightarrow>
   (nat, unit, unit, string, string, unit \<times> wcall list) Server" where
  "sample_server decoded ee =
    \<lparr> h = (\<lambda>ctx req u. (Inr req, u)),
      dec = (\<lambda>ctx r u. (decoded, u)),
      enc = EncodeJSONResponse
              \<lparr> asHeaderer_of = (\<lambda>v. None), asStatusCoder_of = (\<lambda>v. None),
                json_Marshal = (\<lambda>v. Inr v) \<rparr>,
      before = [], after = [],
      errorEncoder = ee,
      finalizer = [\<lambda>ctx c r st. st],
      errorHandler = (\<lambda>ctx err u. u) \<rparr>"

definition empty_body :: error where
  "empty_body = GoError ''empty body'' None None None"

text \<open>
  The same server without a finalizer, with one pre-hook that stores a value in the
  context, one post-hook that sets a header, and a handler that returns the given
  result.
\<close>

definition staged_server ::
  "error + string \<Rightarrow> error + string \<Rightarrow>
   (nat, unit, unit, string, string, unit \<times> wcall list) Server" where
  "staged_server decoded handled =
    (sample_server decoded DefaultErrorEncoder)
      \<lparr> h := (\<lambda>ctx req u. (handled, u)),
        before := [\<lambda>ctx r u. (WithValue ctx 7 (User_val ()), u)],
        after := [\<lambda>ctx w st. (ctx, Header_Set w ''X-Post'' ''1'' st)],
        finalizer := [] \<rparr>"

text \<open>Two transports that fail: one accepts nothing, one accepts three bytes.\<close>

definition broken_pipe :: "bytes \<Rightarrow> int \<times> error option" where
  "broken_pipe p = (0, Some (GoError ''broken pipe'' None None None))"

definition short_write :: "bytes \<Rightarrow> int \<times> error option" where
  "short_write p = (3, Some (GoError ''short write'' None None None))"

section \<open>Properties of the encoders\<close>

lemmas eval_defs = ServeHTTP_def ServeHTTP_body_def ServeHTTP_deferred_def ServeHTTP_encode_def
  report_error_def via_iw_def direct_def interceptingWriter_Write_def
  interceptingWriter_WriteHeader_def DefaultErrorEncoder_def EncodeJSONResponse_def
  Encoder_Encode_def logging_def stub_def accept_all_def WithValue_def Value_def
  StatusOK_def StatusNoContent_def StatusInternalServerError_def Let_def

subsection \<open>The calls an encoder makes on its writer\<close>

lemma logging_simps:
  "Header_Set (logging w) k v (s, l) = (Header_Set w k v s, l @ [Set_call k v])"
  "Header_Add (logging w) k v (s, l) = (Header_Add w k v s, l @ [Add_call k v])"
  "WriteHeader (logging w) c (s, l) = (WriteHeader w c s, l @ [WriteHeader_call c])"
  "Write (logging w) p (s, l) = (fst (Write w p s), (snd (Write w p s), l @ [Write_call p]))"
  "Header (logging w) (s, l) = Header w s"
  by (simp_all add: logging_def split: prod.splits)

lemma add_values_logging:
  "add_values (logging w) k vs (s, l) = (add_values w k vs s, l @ map (Add_call k) vs)"
  by (induction vs arbitrary: s l) (simp_all add: logging_simps)

lemma add_headers_logging:
  "add_headers (logging w) hs (s, l) = (add_headers w hs s, l @ Add_calls hs)"
  by (induction hs arbitrary: s l) (auto simp: add_values_logging)

lemma filter_Add_calls:
  "filter is_WriteHeader_call (Add_calls hs) = []" "filter is_Write_call (Add_calls hs) = []"
  by (induction hs) auto

lemma DefaultErrorEncoder_logging:
  "DefaultErrorEncoder ctx err (logging w) (s, l) =
    (DefaultErrorEncoder ctx err w s,
     l @ [Set_call ''Content-Type''
            (case asMarshaler err of
               Some (Inr jsonBody) \<Rightarrow> ''application/json; charset=utf-8''
             | _ \<Rightarrow> ''text/plain; charset=utf-8'')]
       @ Add_calls (case asHeaderer err of Some headers \<Rightarrow> headers | None \<Rightarrow> [])
       @ [WriteHeader_call (case asStatusCoder err of Some sc \<Rightarrow> sc | None \<Rightarrow> 500),
          Write_call (case asMarshaler err of Some (Inr jsonBody) \<Rightarrow> jsonBody | _ \<Rightarrow> Error err)])"
  by (simp add: DefaultErrorEncoder_def logging_simps add_headers_logging
      StatusInternalServerError_def split: option.splits sum.splits prod.splits)

lemma EncodeJSONResponse_logging_204:
  assumes "(case asStatusCoder_of T r of Some sc \<Rightarrow> sc | None \<Rightarrow> 200) = 204"
  shows "EncodeJSONResponse T ctx (logging w) r (s, l) =
      (None, snd (EncodeJSONResponse T ctx w r s),
       l @ [Set_call ''Content-Type'' ''application/json; charset=utf-8'']
         @ Add_calls (case asHeaderer_of T r of Some headers \<Rightarrow> headers | None \<Rightarrow> [])
         @ [WriteHeader_call 204])"
  using assms
  by (simp add: EncodeJSONResponse_def logging_simps add_headers_logging
      StatusOK_def StatusNoContent_def Let_def split: option.splits)

lemma EncodeJSONResponse_logging_body:
  assumes "(case asStatusCoder_of T r of Some sc \<Rightarrow> sc | None \<Rightarrow> 200) = c" "c \<noteq> 204"
    and "json_Marshal T r = Inr b"
  shows "EncodeJSONResponse T ctx (logging w) r (s, l) =
      (fst (EncodeJSONResponse T ctx w r s), snd (EncodeJSONResponse T ctx w r s),
       l @ [Set_call ''Content-Type'' ''application/json; charset=utf-8'']
         @ Add_calls (case asHeaderer_of T r of Some headers \<Rightarrow> headers | None \<Rightarrow> [])
         @ [WriteHeader_call c, Write_call (b @ [CHR 0x0A])])"
  using assms
  by (simp add: EncodeJSONResponse_def Encoder_Encode_def logging_simps add_headers_logging
      StatusOK_def StatusNoContent_def Let_def split: option.splits prod.splits)

lemma EncodeJSONResponse_logging_marshal_error:
  assumes "(case asStatusCoder_of T r of Some sc \<Rightarrow> sc | None \<Rightarrow> 200) = c" "c \<noteq> 204"
    and "json_Marshal T r = Inl e"
  shows "EncodeJSONResponse T ctx (logging w) r (s, l) =
      (Some e, snd (EncodeJSONResponse T ctx w r s),
       l @ [Set_call ''Content-Type'' ''application/json; charset=utf-8'']
         @ Add_calls (case asHeaderer_of T r of Some headers \<Rightarrow> headers | None \<Rightarrow> [])
         @ [WriteHeader_call c])"
  using assms
  by (simp add: EncodeJSONResponse_def Encoder_Encode_def logging_simps add_headers_logging
      StatusOK_def StatusNoContent_def Let_def split: option.splits prod.splits)

lemma EncodeJSONResponse_204_direct:
  assumes "(case asStatusCoder_of T r of Some sc \<Rightarrow> sc | None \<Rightarrow> 200) = 204"
  shows "EncodeJSONResponse T ctx w r s =
      (None, WriteHeader w 204
         (add_headers w (case asHeaderer_of T r of Some headers \<Rightarrow> headers | None \<Rightarrow> [])
           (Header_Set w ''Content-Type'' ''application/json; charset=utf-8'' s)))"
  using assms
  by (simp add: EncodeJSONResponse_def StatusOK_def StatusNoContent_def Let_def
      split: option.splits)

subsection \<open>The error encoder\<close>

text \<open>
  Claim C4. For every error value, on any writer, \<^verbatim>\<open>DefaultErrorEncoder\<close> makes exactly
  these calls, in this order: it sets the content type, which is
  \<^verbatim>\<open>application/json\<close> when the error implements \<^verbatim>\<open>json.Marshaler\<close> and the
  marshalling succeeds and \<^verbatim>\<open>text/plain\<close> otherwise; it adds every header value the
  error provides; it writes the status code the error provides, or 500; it writes the
  body, which is the JSON form in the first case and the message \<^verbatim>\<open>err.Error()\<close>
  otherwise. So there is exactly one status write and one body write. The wrapped
  writer ends in the state the same call leaves it in without the log.
\<close>

theorem DefaultErrorEncoder_resolution:
  "DefaultErrorEncoder ctx err (logging w) (s, []) =
    (DefaultErrorEncoder ctx err w s,
     [Set_call ''Content-Type''
        (case asMarshaler err of
           Some (Inr jsonBody) \<Rightarrow> ''application/json; charset=utf-8''
         | _ \<Rightarrow> ''text/plain; charset=utf-8'')]
     @ Add_calls (case asHeaderer err of Some headers \<Rightarrow> headers | None \<Rightarrow> [])
     @ [WriteHeader_call (case asStatusCoder err of Some sc \<Rightarrow> sc | None \<Rightarrow> 500),
        Write_call (case asMarshaler err of Some (Inr jsonBody) \<Rightarrow> jsonBody | _ \<Rightarrow> Error err)])
   \<and> length (filter is_WriteHeader_call (snd (DefaultErrorEncoder ctx err (logging w) (s, [])))) = 1
   \<and> length (filter is_Write_call (snd (DefaultErrorEncoder ctx err (logging w) (s, [])))) = 1"
  using DefaultErrorEncoder_logging [of ctx err w s "[]"] by (simp add: filter_Add_calls)

text \<open>
  Claim C9. When the error implements \<^verbatim>\<open>json.Marshaler\<close> but \<^verbatim>\<open>MarshalJSON\<close> returns
  an error, \<^verbatim>\<open>DefaultErrorEncoder\<close> renders plain text: the content type is
  \<^verbatim>\<open>text/plain\<close> and the body is the error's message; the headers and the status code
  the error provides are applied as usual.
\<close>

theorem DefaultErrorEncoder_marshal_failure:
  assumes "asMarshaler err = Some (Inl marshalErr)"
  shows "DefaultErrorEncoder ctx err (logging w) (s, []) =
    (DefaultErrorEncoder ctx err w s,
     [Set_call ''Content-Type'' ''text/plain; charset=utf-8'']
     @ Add_calls (case asHeaderer err of Some headers \<Rightarrow> headers | None \<Rightarrow> [])
     @ [WriteHeader_call (case asStatusCoder err of Some sc \<Rightarrow> sc | None \<Rightarrow> 500),
        Write_call (Error err)])"
  using DefaultErrorEncoder_logging [of ctx err w s "[]"] assms by simp

theorem DefaultErrorEncoder_marshal_failure_witness:
  "asMarshaler (GoError ''not found'' (Some (Inl (GoError ''cycle'' None None None)))
       (Some [(''Retry-After'', [''5'']), (''Vary'', [''a'', ''b''])]) (Some 404))
     = Some (Inl (GoError ''cycle'' None None None))
   \<and> snd (DefaultErrorEncoder () (GoError ''not found'' (Some (Inl (GoError ''cycle'' None None None)))
       (Some [(''Retry-After'', [''5'']), (''Vary'', [''a'', ''b''])]) (Some 404))
       (logging (stub accept_all)) ((), [])) =
     [Set_call ''Content-Type'' ''text/plain; charset=utf-8'',
      Add_call ''Retry-After'' ''5'', Add_call ''Vary'' ''a'', Add_call ''Vary'' ''b'',
      WriteHeader_call 404, Write_call ''not found'']"
  using DefaultErrorEncoder_marshal_failure
    [where err = "GoError ''not found'' (Some (Inl (GoError ''cycle'' None None None)))
       (Some [(''Retry-After'', [''5'']), (''Vary'', [''a'', ''b''])]) (Some 404)"
       and marshalErr = "GoError ''cycle'' None None None" and ctx = "()"
       and w = "stub accept_all" and s = "()"]
  by simp

subsection \<open>The JSON encoder\<close>

text \<open>
  Claim C3. When the resolved status code of a response (the one it provides, or 200)
  is 204, \<^verbatim>\<open>EncodeJSONResponse\<close> sets the content type, adds the headers, writes the
  status code 204, makes no \<^verbatim>\<open>Write\<close> call and returns nil, whatever
  \<^verbatim>\<open>json.Marshal\<close> would return for the value. For any other resolved status code
  and a value that marshals to \<open>b\<close>, the status write is followed by one \<^verbatim>\<open>Write\<close>
  of \<open>b\<close> and the encoder's terminating newline. (A value that does not marshal has
  no serialized body: then the marshalling error is returned after the status write.)
\<close>

theorem EncodeJSONResponse_no_content:
  "((case asStatusCoder_of T r of Some sc \<Rightarrow> sc | None \<Rightarrow> 200) = 204 \<longrightarrow>
      EncodeJSONResponse T ctx (logging w) r (s, []) =
        (None,
         WriteHeader w 204
           (add_headers w (case asHeaderer_of T r of Some headers \<Rightarrow> headers | None \<Rightarrow> [])
             (Header_Set w ''Content-Type'' ''application/json; charset=utf-8'' s)),
         [Set_call ''Content-Type'' ''application/json; charset=utf-8'']
         @ Add_calls (case asHeaderer_of T r of Some headers \<Rightarrow> headers | None \<Rightarrow> [])
         @ [WriteHeader_call 204]))
   \<and> ((case asStatusCoder_of T r of Some sc \<Rightarrow> sc | None \<Rightarrow> 200) \<noteq> 204
        \<and> json_Marshal T r = Inr b \<longrightarrow>
      EncodeJSONResponse T ctx (logging w) r (s, []) =
        (fst (EncodeJSONResponse T ctx w r s), snd (EncodeJSONResponse T ctx w r s),
         [Set_call ''Content-Type'' ''application/json; charset=utf-8'']
         @ Add_calls (case asHeaderer_of T r of Some headers \<Rightarrow> headers | None \<Rightarrow> [])
         @ [WriteHeader_call (case asStatusCoder_of T r of Some sc \<Rightarrow> sc | None \<Rightarrow> 200),
            Write_call (b @ [CHR 0x0A])]))
   \<and> ((case asStatusCoder_of T r of Some sc \<Rightarrow> sc | None \<Rightarrow> 200) \<noteq> 204
        \<and> json_Marshal T r = Inl e \<longrightarrow>
      EncodeJSONResponse T ctx (logging w) r (s, []) =
        (Some e, snd (EncodeJSONResponse T ctx w r s),
         [Set_call ''Content-Type'' ''application/json; charset=utf-8'']
         @ Add_calls (case asHeaderer_of T r of Some headers \<Rightarrow> headers | None \<Rightarrow> [])
         @ [WriteHeader_call (case asStatusCoder_of T r of Some sc \<Rightarrow> sc | None \<Rightarrow> 200)]))"
proof (intro conjI impI)
  assume a: "(case asStatusCoder_of T r of Some sc \<Rightarrow> sc | None \<Rightarrow> 200) = 204"
  show "EncodeJSONResponse T ctx (logging w) r (s, []) =
        (None,
         WriteHeader w 204
           (add_headers w (case asHeaderer_of T r of Some headers \<Rightarrow> headers | None \<Rightarrow> [])
             (Header_Set w ''Content-Type'' ''application/json; charset=utf-8'' s)),
         [Set_call ''Content-Type'' ''application/json; charset=utf-8'']
         @ Add_calls (case asHeaderer_of T r of Some headers \<Rightarrow> headers | None \<Rightarrow> [])
         @ [WriteHeader_call 204])"
    using EncodeJSONResponse_logging_204 [OF a, of ctx w s "[]"]
      EncodeJSONResponse_204_direct [OF a, of ctx w s] by simp
next
  assume a: "(case asStatusCoder_of T r of Some sc \<Rightarrow> sc | None \<Rightarrow> 200) \<noteq> 204
        \<and> json_Marshal T r = Inr b"
  show "EncodeJSONResponse T ctx (logging w) r (s, []) =
        (fst (EncodeJSONResponse T ctx w r s), snd (EncodeJSONResponse T ctx w r s),
         [Set_call ''Content-Type'' ''application/json; charset=utf-8'']
         @ Add_calls (case asHeaderer_of T r of Some headers \<Rightarrow> headers | None \<Rightarrow> [])
         @ [WriteHeader_call (case asStatusCoder_of T r of Some sc \<Rightarrow> sc | None \<Rightarrow> 200),
            Write_call (b @ [CHR 0x0A])])"
    using EncodeJSONResponse_logging_body [OF refl, of T r b ctx w s "[]"] a by simp
next
  assume a: "(case asStatusCoder_of T r of Some sc \<Rightarrow> sc | None \<Rightarrow> 200) \<noteq> 204
        \<and> json_Marshal T r = Inl e"
  show "EncodeJSONResponse T ctx (logging w) r (s, []) =
        (Some e, snd (EncodeJSONResponse T ctx w r s),
         [Set_call ''Content-Type'' ''application/json; charset=utf-8'']
         @ Add_calls (case asHeaderer_of T r of Some headers \<Rightarrow> headers | None \<Rightarrow> [])
         @ [WriteHeader_call (case asStatusCoder_of T r of Some sc \<Rightarrow> sc | None \<Rightarrow> 200)])"
    using EncodeJSONResponse_logging_marshal_error [OF refl, of T r e ctx w s "[]"] a by simp
qed

theorem EncodeJSONResponse_no_content_witness:
  "(case asStatusCoder_of
           \<lparr> asHeaderer_of = (\<lambda>v. Some [(''X-Id'', [v])]), asStatusCoder_of = (\<lambda>v. Some 204),
             json_Marshal = (\<lambda>v. Inr ''{}'') \<rparr> ''7'' of Some sc \<Rightarrow> sc | None \<Rightarrow> 200) = (204::int)
   \<and> EncodeJSONResponse
        \<lparr> asHeaderer_of = (\<lambda>v. Some [(''X-Id'', [v])]), asStatusCoder_of = (\<lambda>v. Some 204),
          json_Marshal = (\<lambda>v. Inr ''{}'') \<rparr> () (logging (stub accept_all)) ''7'' ((), []) =
       (None, (),
        [Set_call ''Content-Type'' ''application/json; charset=utf-8'', Add_call ''X-Id'' ''7'',
         WriteHeader_call 204])
   \<and> (case asStatusCoder_of
           \<lparr> asHeaderer_of = (\<lambda>v. None), asStatusCoder_of = (\<lambda>v. None),
             json_Marshal = (\<lambda>v. Inr v) \<rparr> ''{}'' of Some sc \<Rightarrow> sc | None \<Rightarrow> 200) \<noteq> (204::int)
   \<and> json_Marshal
           \<lparr> asHeaderer_of = (\<lambda>v. None), asStatusCoder_of = (\<lambda>v. None),
             json_Marshal = (\<lambda>v. Inr v) \<rparr> ''{}'' = Inr ''{}''
   \<and> snd (snd (EncodeJSONResponse
        \<lparr> asHeaderer_of = (\<lambda>v. None), asStatusCoder_of = (\<lambda>v. None),
          json_Marshal = (\<lambda>v. Inr v) \<rparr> () (logging (stub accept_all)) ''{}'' ((), []))) =
        [Set_call ''Content-Type'' ''application/json; charset=utf-8'',
         WriteHeader_call 200, Write_call [CHR ''{'', CHR ''}'', CHR 0x0A]]
   \<and> json_Marshal
           \<lparr> asHeaderer_of = (\<lambda>v. None), asStatusCoder_of = (\<lambda>v. Some 201),
             json_Marshal = (\<lambda>v. Inl (GoError v None None None)) \<rparr> ''unsupported type''
         = Inl (GoError ''unsupported type'' None None None)
   \<and> EncodeJSONResponse
        \<lparr> asHeaderer_of = (\<lambda>v. None), asStatusCoder_of = (\<lambda>v. Some 201),
          json_Marshal = (\<lambda>v. Inl (GoError v None None None)) \<rparr> ()
        (logging (stub accept_all)) ''unsupported type'' ((), []) =
       (Some (GoError ''unsupported type'' None None None), (),
        [Set_call ''Content-Type'' ''application/json; charset=utf-8'', WriteHeader_call 201])"
  using EncodeJSONResponse_no_content
      [where T = "\<lparr> asHeaderer_of = (\<lambda>v. None), asStatusCoder_of = (\<lambda>v. Some 201),
             json_Marshal = (\<lambda>v. Inl (GoError v None None None)) \<rparr>"
          and r = "''unsupported type''" and ctx = "()"
          and w = "stub accept_all" and s = "()"
          and e = "GoError ''unsupported type'' None None None"]
    EncodeJSONResponse_no_content
      [where T = "\<lparr> asHeaderer_of = (\<lambda>v. Some [(''X-Id'', [v])]), asStatusCoder_of = (\<lambda>v. Some 204),
             json_Marshal = (\<lambda>v. Inr ''{}'') \<rparr>" and r = "''7''" and ctx = "()"
          and w = "stub accept_all" and s = "()" and b = "''{}''"]
    EncodeJSONResponse_no_content
      [where T = "\<lparr> asHeaderer_of = (\<lambda>v. None), asStatusCoder_of = (\<lambda>v. None),
             json_Marshal = (\<lambda>v. Inr v) \<rparr>" and r = "''{}''" and ctx = "()"
          and w = "stub accept_all" and s = "()" and b = "''{}''"]
  by simp

section \<open>Properties of the server\<close>

subsection \<open>The loops\<close>

lemma upt_shift: "[i..<Suc (i + n)] = i # [Suc i..<Suc (i + n)]"
  using upt_conv_Cons [of i "Suc (i + n)"] by (simp del: upt_Suc)

lemma run_before_trace:
  "\<exists>ctx' evs u'. run_before i fs r (ctx, tr, st) = (ctx', tr @ evs, st\<lparr>ext := u'\<rparr>)
     \<and> map stage_of evs = map Pre_hook [i..<i + length fs]"
proof (induction fs arbitrary: i ctx tr st)
  case Nil
  have "run_before i [] r (ctx, tr, st) = (ctx, tr @ [], st\<lparr>ext := ext st\<rparr>)" by simp
  then show ?case by (metis add.right_neutral list.simps(8) list.size(3) upt_eq_Nil_conv order_refl)
next
  case (Cons f fs)
  obtain c1 u1 where f: "f ctx r (ext st) = (c1, u1)" by (cases "f ctx r (ext st)")
  from Cons.IH [of "Suc i" c1 "tr @ [Call_before i ctx]" "st\<lparr>ext := u1\<rparr>"]
  obtain ctx' evs u' where
    run: "run_before (Suc i) fs r (c1, tr @ [Call_before i ctx], st\<lparr>ext := u1\<rparr>)
            = (ctx', (tr @ [Call_before i ctx]) @ evs, st\<lparr>ext := u1\<rparr>\<lparr>ext := u'\<rparr>)"
    and st: "map stage_of evs = map Pre_hook [Suc i..<Suc i + length fs]"
    by blast
  have "run_before i (f # fs) r (ctx, tr, st) = (ctx', tr @ (Call_before i ctx # evs), st\<lparr>ext := u'\<rparr>)"
    using f run by simp
  moreover have "map stage_of (Call_before i ctx # evs) = map Pre_hook [i..<i + length (f # fs)]"
    using st by (simp add: upt_shift del: upt_Suc)
  ultimately show ?case by blast
qed

lemma run_after_trace:
  "\<exists>ctx' evs st'. run_after i fs w (ctx, tr, st) = (ctx', tr @ evs, st')
     \<and> map stage_of evs = map Post_hook [i..<i + length fs]"
proof (induction fs arbitrary: i ctx tr st)
  case Nil
  have "run_after i [] w (ctx, tr, st) = (ctx, tr @ [], st)" by simp
  then show ?case by (metis add.right_neutral list.simps(8) list.size(3) upt_eq_Nil_conv order_refl)
next
  case (Cons f fs)
  obtain c1 s1 where f: "f ctx w st = (c1, s1)" by (cases "f ctx w st")
  from Cons.IH [of "Suc i" c1 "tr @ [Call_after i ctx]" s1]
  obtain ctx' evs st' where
    run: "run_after (Suc i) fs w (c1, tr @ [Call_after i ctx], s1)
            = (ctx', (tr @ [Call_after i ctx]) @ evs, st')"
    and st: "map stage_of evs = map Post_hook [Suc i..<Suc i + length fs]"
    by blast
  have "run_after i (f # fs) w (ctx, tr, st) = (ctx', tr @ (Call_after i ctx # evs), st')"
    using f run by simp
  moreover have "map stage_of (Call_after i ctx # evs) = map Post_hook [i..<i + length (f # fs)]"
    using st by (simp add: upt_shift del: upt_Suc)
  ultimately show ?case by blast
qed

lemma run_before_fold:
  "\<exists>evs. run_before i fs r (ctx, tr, st) =
      (fst (fold (\<lambda>f (ctx, u). f ctx r u) fs (ctx, ext st)), tr @ evs,
       st\<lparr>ext := snd (fold (\<lambda>f (ctx, u). f ctx r u) fs (ctx, ext st))\<rparr>)
     \<and> map stage_of evs = map Pre_hook [i..<i + length fs]"
proof (induction fs arbitrary: i ctx tr st)
  case Nil
  have "run_before i [] r (ctx, tr, st) = (ctx, tr @ [], st\<lparr>ext := ext st\<rparr>)" by simp
  then show ?case by auto
next
  case (Cons f fs)
  obtain c1 u1 where f: "f ctx r (ext st) = (c1, u1)" by (cases "f ctx r (ext st)")
  let ?F = "fold (\<lambda>f (ctx, u). f ctx r u) fs (c1, u1)"
  from Cons.IH [of "Suc i" c1 "tr @ [Call_before i ctx]" "st\<lparr>ext := u1\<rparr>"]
  obtain evs where
    run: "run_before (Suc i) fs r (c1, tr @ [Call_before i ctx], st\<lparr>ext := u1\<rparr>)
            = (fst ?F, (tr @ [Call_before i ctx]) @ evs, st\<lparr>ext := u1\<rparr>\<lparr>ext := snd ?F\<rparr>)"
    and st: "map stage_of evs = map Pre_hook [Suc i..<Suc i + length fs]"
    by auto
  have "run_before i (f # fs) r (ctx, tr, st) =
      (fst (fold (\<lambda>f (ctx, u). f ctx r u) (f # fs) (ctx, ext st)), tr @ (Call_before i ctx # evs),
       st\<lparr>ext := snd (fold (\<lambda>f (ctx, u). f ctx r u) (f # fs) (ctx, ext st))\<rparr>)"
    using f run by simp
  moreover have "map stage_of (Call_before i ctx # evs) = map Pre_hook [i..<i + length (f # fs)]"
    using st by (simp add: upt_shift del: upt_Suc)
  ultimately show ?case by blast
qed

lemma run_after_fold:
  "\<exists>evs. run_after i fs w (ctx, tr, st) =
      (fst (fold (\<lambda>f (ctx, st). f ctx w st) fs (ctx, st)), tr @ evs,
       snd (fold (\<lambda>f (ctx, st). f ctx w st) fs (ctx, st)))
     \<and> map stage_of evs = map Post_hook [i..<i + length fs]"
proof (induction fs arbitrary: i ctx tr st)
  case Nil
  have "run_after i [] w (ctx, tr, st) = (ctx, tr @ [], st)" by simp
  then show ?case by auto
next
  case (Cons f fs)
  obtain c1 s1 where f: "f ctx w st = (c1, s1)" by (cases "f ctx w st")
  let ?G = "fold (\<lambda>f (ctx, st). f ctx w st) fs (c1, s1)"
  from Cons.IH [of "Suc i" c1 "tr @ [Call_after i ctx]" s1]
  obtain evs where
    run: "run_after (Suc i) fs w (c1, tr @ [Call_after i ctx], s1)
            = (fst ?G, (tr @ [Call_after i ctx]) @ evs, snd ?G)"
    and st: "map stage_of evs = map Post_hook [Suc i..<Suc i + length fs]"
    by auto
  have "run_after i (f # fs) w (ctx, tr, st) =
      (fst (fold (\<lambda>f (ctx, st). f ctx w st) (f # fs) (ctx, st)), tr @ (Call_after i ctx # evs),
       snd (fold (\<lambda>f (ctx, st). f ctx w st) (f # fs) (ctx, st)))"
    using f run by simp
  moreover have "map stage_of (Call_after i ctx # evs) = map Post_hook [i..<i + length (f # fs)]"
    using st by (simp add: upt_shift del: upt_Suc)
  ultimately show ?case by blast
qed

lemma run_finalizer_eq:
  "run_finalizer i fs ctx r (tr, st) =
     (tr @ map (\<lambda>j. Call_finalizer (i + j) ctx
                  (code (iw (fold (\<lambda>f st. f ctx (code (iw st)) r st) (take j fs) st))))
             [0..<length fs],
      fold (\<lambda>f st. f ctx (code (iw st)) r st) fs st)"
proof (induction fs arbitrary: i tr st)
  case Nil
  show ?case by simp
next
  case (Cons f fs)
  show ?case
    by (simp add: Cons.IH map_upt_Suc del: upt_Suc)
qed

subsection \<open>The body of a call\<close>

lemma report_error_eq:
  "report_error s w ctx err (tr, st) =
    (tr @ [Call_errorHandler ctx err, Call_errorEncoder ctx err],
     errorEncoder s ctx err w (st\<lparr>ext := errorHandler s ctx err (ext st)\<rparr>))"
  by (simp add: report_error_def)

lemma ServeHTTP_encode_stages:
  "\<exists>evs st'. ServeHTTP_encode s w response (ctx, tr, st) = (ctx, tr @ evs, st')
     \<and> (map stage_of evs = [Encode True] \<or> map stage_of evs = [Encode False, Route, Encode_error])"
proof (cases "enc s ctx w response st")
  case (Pair err st1)
  show ?thesis
  proof (cases err)
    case None
    with Pair have "ServeHTTP_encode s w response (ctx, tr, st)
        = (ctx, tr @ [Call_enc ctx response None], st1)"
      by (simp add: ServeHTTP_encode_def)
    then show ?thesis by fastforce
  next
    case (Some e)
    with Pair have "ServeHTTP_encode s w response (ctx, tr, st)
        = (ctx, tr @ [Call_enc ctx response (Some e), Call_errorHandler ctx e, Call_errorEncoder ctx e],
           errorEncoder s ctx e w (st1\<lparr>ext := errorHandler s ctx e (ext st1)\<rparr>))"
      by (simp add: ServeHTTP_encode_def report_error_eq)
    then show ?thesis by fastforce
  qed
qed

lemma ServeHTTP_body_stages:
  "\<exists>ctx' evs st'. ServeHTTP_body s w r (ctx, tr, st) = (ctx', tr @ evs, st')
     \<and> (map stage_of evs = map Pre_hook [0..<length (before s)] @ [Decode False, Route, Encode_error]
        \<or> map stage_of evs =
            map Pre_hook [0..<length (before s)] @ [Decode True, Handle False, Route, Encode_error]
        \<or> map stage_of evs =
            map Pre_hook [0..<length (before s)] @ [Decode True, Handle True]
            @ map Post_hook [0..<length (after s)] @ [Encode True]
        \<or> map stage_of evs =
            map Pre_hook [0..<length (before s)] @ [Decode True, Handle True]
            @ map Post_hook [0..<length (after s)] @ [Encode False, Route, Encode_error])"
proof -
  obtain c1 e1 u1 where
    pre: "run_before 0 (before s) r (ctx, tr, st) = (c1, tr @ e1, st\<lparr>ext := u1\<rparr>)"
    and e1: "map stage_of e1 = map Pre_hook [0..<length (before s)]"
    using run_before_trace [of 0 "before s" r ctx tr st] by auto
  obtain res u2 where d: "dec s c1 r u1 = (res, u2)" by (cases "dec s c1 r u1")
  show ?thesis
  proof (cases res)
    case (Inl err)
    have "ServeHTTP_body s w r (ctx, tr, st) =
        (c1, tr @ (e1 @ [Call_dec c1 (Inl err), Call_errorHandler c1 err, Call_errorEncoder c1 err]),
         errorEncoder s c1 err w (st\<lparr>ext := errorHandler s c1 err u2\<rparr>))"
      using pre d Inl by (simp add: ServeHTTP_body_def report_error_eq)
    moreover have "map stage_of (e1 @ [Call_dec c1 (Inl err), Call_errorHandler c1 err,
        Call_errorEncoder c1 err]) = map Pre_hook [0..<length (before s)] @ [Decode False, Route, Encode_error]"
      using e1 by simp
    ultimately show ?thesis by blast
  next
    case (Inr req)
    obtain res2 u3 where hh: "h s c1 req u2 = (res2, u3)" by (cases "h s c1 req u2")
    show ?thesis
    proof (cases res2)
      case (Inl err)
      have "ServeHTTP_body s w r (ctx, tr, st) =
          (c1, tr @ (e1 @ [Call_dec c1 (Inr req), Call_h c1 req (Inl err),
                           Call_errorHandler c1 err, Call_errorEncoder c1 err]),
           errorEncoder s c1 err w (st\<lparr>ext := errorHandler s c1 err u3\<rparr>))"
        using pre d \<open>res = Inr req\<close> hh Inl by (simp add: ServeHTTP_body_def report_error_eq)
      moreover have "map stage_of (e1 @ [Call_dec c1 (Inr req), Call_h c1 req (Inl err),
            Call_errorHandler c1 err, Call_errorEncoder c1 err])
          = map Pre_hook [0..<length (before s)] @ [Decode True, Handle False, Route, Encode_error]"
        using e1 by simp
      ultimately show ?thesis by blast
    next
      case (Inr response)
      let ?tr2 = "tr @ e1 @ [Call_dec c1 (Inr req), Call_h c1 req (Inr response)]"
      obtain c2 e2 st2 where
        post: "run_after 0 (after s) w (c1, ?tr2, st\<lparr>ext := u3\<rparr>) = (c2, ?tr2 @ e2, st2)"
        and e2: "map stage_of e2 = map Post_hook [0..<length (after s)]"
        using run_after_trace [of 0 "after s" w c1 ?tr2 "st\<lparr>ext := u3\<rparr>"] by auto
      obtain e3 st3 where
        en: "ServeHTTP_encode s w response (c2, ?tr2 @ e2, st2) = (c2, (?tr2 @ e2) @ e3, st3)"
        and e3: "map stage_of e3 = [Encode True] \<or> map stage_of e3 = [Encode False, Route, Encode_error]"
        using ServeHTTP_encode_stages [of s w response c2 "?tr2 @ e2" st2] by auto
      have "ServeHTTP_body s w r (ctx, tr, st) =
          (c2, tr @ (e1 @ [Call_dec c1 (Inr req), Call_h c1 req (Inr response)] @ e2 @ e3), st3)"
        using pre d \<open>res = Inr req\<close> hh Inr post en by (simp add: ServeHTTP_body_def)
      moreover have "map stage_of (e1 @ [Call_dec c1 (Inr req), Call_h c1 req (Inr response)] @ e2 @ e3)
          = map Pre_hook [0..<length (before s)] @ [Decode True, Handle True]
            @ map Post_hook [0..<length (after s)] @ map stage_of e3"
        using e1 e2 by simp
      ultimately show ?thesis using e3 by (metis (no_types, lifting))
    qed
  qed
qed


subsection \<open>The deferred function and the whole call\<close>

lemma ServeHTTP_deferred_eq:
  "ServeHTTP_deferred kH kS s r (ctx, tr, st) =
     (tr @ map (\<lambda>j. Call_finalizer j
                  (WithValue (WithValue ctx kH (Headers_ref (Header (ResponseWriter (iw st))))) kS
                     (Int64_val (written (iw st))))
                  (code (iw (fold (\<lambda>f st'. f
                     (WithValue (WithValue ctx kH (Headers_ref (Header (ResponseWriter (iw st))))) kS
                        (Int64_val (written (iw st))))
                     (code (iw st')) r st') (take j (finalizer s)) st))))
             [0..<length (finalizer s)],
      fold (\<lambda>f st'. f (WithValue (WithValue ctx kH (Headers_ref (Header (ResponseWriter (iw st))))) kS
                           (Int64_val (written (iw st))))
                        (code (iw st')) r st')
           (finalizer s) st)"
  using run_finalizer_eq [of 0 "finalizer s" _ r tr st]
  by (simp add: ServeHTTP_deferred_def)

lemma ServeHTTP_deferred_log:
  "\<exists>fin. fst (ServeHTTP_deferred kH kS s r (ctx, tr, st)) = tr @ fin
      \<and> map stage_of fin = map Finalize [0..<length (finalizer s)]"
  by (simp add: ServeHTTP_deferred_eq comp_def)

lemma ServeHTTP_deferred_state:
  "snd (ServeHTTP_deferred kH kS s r (ctx, tr, st)) = snd (ServeHTTP_deferred kH kS s r (ctx, [], st))"
  by (simp add: ServeHTTP_deferred_eq)

lemma ServeHTTP_deferred_none:
  "finalizer s = [] \<Longrightarrow> ServeHTTP_deferred kH kS s r (ctx, tr, st) = (tr, st)"
  by (simp add: ServeHTTP_deferred_def)

lemma ServeHTTP_eq:
  "ServeHTTP kH kS s w r u =
    (let (tr, st) = ServeHTTP_deferred kH kS s r
           (ServeHTTP_body s (if 0 < length (finalizer s) then via_iw else direct w) r
              (Context r, [], \<lparr> ext = u, iw = \<lparr> ResponseWriter = w, code = 200, written = 0 \<rparr> \<rparr>))
     in (tr, ext st))"
proof (cases "finalizer s = []")
  case True
  obtain ctx tr st where
    "ServeHTTP_body s (direct w) r
       (Context r, [], \<lparr> ext = u, iw = \<lparr> ResponseWriter = w, code = 200, written = 0 \<rparr> \<rparr>)
     = (ctx, tr, st)"
    by (metis prod_cases3)
  then show ?thesis
    using True by (simp add: ServeHTTP_def ServeHTTP_deferred_none StatusOK_def Let_def)
next
  case False
  then show ?thesis
    by (simp add: ServeHTTP_def StatusOK_def Let_def split: prod.splits)
qed

text \<open>What one call does once the body's result is known.\<close>

lemma ServeHTTP_of_body:
  assumes "ServeHTTP_body s (if 0 < length (finalizer s) then via_iw else direct w) r
              (Context r, [], \<lparr> ext = u, iw = \<lparr> ResponseWriter = w, code = 200, written = 0 \<rparr> \<rparr>)
           = (ctx, tr, st)"
  shows "(\<exists>fin. fst (ServeHTTP kH kS s w r u) = tr @ fin
            \<and> map stage_of fin = map Finalize [0..<length (finalizer s)])
       \<and> snd (ServeHTTP kH kS s w r u) = ext (snd (ServeHTTP_deferred kH kS s r (ctx, [], st)))"
proof -
  have "ServeHTTP kH kS s w r u =
      (fst (ServeHTTP_deferred kH kS s r (ctx, tr, st)),
       ext (snd (ServeHTTP_deferred kH kS s r (ctx, tr, st))))"
    using assms by (simp add: ServeHTTP_eq split: prod.splits)
  then show ?thesis
    using ServeHTTP_deferred_log [of kH kS s r ctx tr st]
      ServeHTTP_deferred_state [of kH kS s r ctx tr st] by simp
qed

subsection \<open>The four ways through the body\<close>

lemma ServeHTTP_body_pre:
  assumes "fold (\<lambda>f (ctx, u). f ctx r u) (before s) (ctx, ext st) = (c1, u1)"
  shows "\<exists>pre. run_before 0 (before s) r (ctx, tr, st) = (c1, tr @ pre, st\<lparr>ext := u1\<rparr>)
      \<and> map stage_of pre = map Pre_hook [0..<length (before s)]"
  using run_before_fold [of 0 "before s" r ctx tr st] assms by simp

lemma ServeHTTP_body_decode_fails:
  assumes "fold (\<lambda>f (ctx, u). f ctx r u) (before s) (ctx, ext st) = (c1, u1)"
    and "dec s c1 r u1 = (Inl e, u2)"
  shows "\<exists>pre. ServeHTTP_body s w r (ctx, tr, st) =
        (c1, tr @ pre @ [Call_dec c1 (Inl e), Call_errorHandler c1 e, Call_errorEncoder c1 e],
         errorEncoder s c1 e w (st\<lparr>ext := errorHandler s c1 e u2\<rparr>))
      \<and> map stage_of pre = map Pre_hook [0..<length (before s)]"
proof -
  from ServeHTTP_body_pre [OF assms(1), of tr]
  obtain pre where pre: "run_before 0 (before s) r (ctx, tr, st) = (c1, tr @ pre, st\<lparr>ext := u1\<rparr>)"
    and sh: "map stage_of pre = map Pre_hook [0..<length (before s)]" by blast
  have "ServeHTTP_body s w r (ctx, tr, st) =
        (c1, tr @ pre @ [Call_dec c1 (Inl e), Call_errorHandler c1 e, Call_errorEncoder c1 e],
         errorEncoder s c1 e w (st\<lparr>ext := errorHandler s c1 e u2\<rparr>))"
    using pre assms(2) by (simp add: ServeHTTP_body_def report_error_eq)
  then show ?thesis using sh by blast
qed

lemma ServeHTTP_body_handle_fails:
  assumes "fold (\<lambda>f (ctx, u). f ctx r u) (before s) (ctx, ext st) = (c1, u1)"
    and "dec s c1 r u1 = (Inr req, u2)" and "h s c1 req u2 = (Inl e, u3)"
  shows "\<exists>pre. ServeHTTP_body s w r (ctx, tr, st) =
        (c1, tr @ pre @ [Call_dec c1 (Inr req), Call_h c1 req (Inl e),
                         Call_errorHandler c1 e, Call_errorEncoder c1 e],
         errorEncoder s c1 e w (st\<lparr>ext := errorHandler s c1 e u3\<rparr>))
      \<and> map stage_of pre = map Pre_hook [0..<length (before s)]"
proof -
  from ServeHTTP_body_pre [OF assms(1), of tr]
  obtain pre where pre: "run_before 0 (before s) r (ctx, tr, st) = (c1, tr @ pre, st\<lparr>ext := u1\<rparr>)"
    and sh: "map stage_of pre = map Pre_hook [0..<length (before s)]" by blast
  have "ServeHTTP_body s w r (ctx, tr, st) =
        (c1, tr @ pre @ [Call_dec c1 (Inr req), Call_h c1 req (Inl e),
                         Call_errorHandler c1 e, Call_errorEncoder c1 e],
         errorEncoder s c1 e w (st\<lparr>ext := errorHandler s c1 e u3\<rparr>))"
    using pre assms(2,3) by (simp add: ServeHTTP_body_def report_error_eq)
  then show ?thesis using sh by blast
qed

lemma ServeHTTP_body_encode:
  assumes "fold (\<lambda>f (ctx, u). f ctx r u) (before s) (ctx, ext st) = (c1, u1)"
    and "dec s c1 r u1 = (Inr req, u2)" and "h s c1 req u2 = (Inr response, u3)"
    and "fold (\<lambda>f (ctx, st). f ctx w st) (after s) (c1, st\<lparr>ext := u3\<rparr>) = (c2, s2)"
    and "enc s c2 w response s2 = (err, s3)"
  shows "\<exists>pre post. ServeHTTP_body s w r (ctx, tr, st) =
        (c2, tr @ pre @ [Call_dec c1 (Inr req), Call_h c1 req (Inr response)] @ post
               @ (case err of
                    None \<Rightarrow> [Call_enc c2 response None]
                  | Some e \<Rightarrow> [Call_enc c2 response (Some e), Call_errorHandler c2 e,
                               Call_errorEncoder c2 e]),
         (case err of
            None \<Rightarrow> s3
          | Some e \<Rightarrow> errorEncoder s c2 e w (s3\<lparr>ext := errorHandler s c2 e (ext s3)\<rparr>)))
      \<and> map stage_of pre = map Pre_hook [0..<length (before s)]
      \<and> map stage_of post = map Post_hook [0..<length (after s)]"
proof -
  from ServeHTTP_body_pre [OF assms(1), of tr]
  obtain pre where pre: "run_before 0 (before s) r (ctx, tr, st) = (c1, tr @ pre, st\<lparr>ext := u1\<rparr>)"
    and sh: "map stage_of pre = map Pre_hook [0..<length (before s)]" by blast
  let ?tr2 = "tr @ pre @ [Call_dec c1 (Inr req), Call_h c1 req (Inr response)]"
  from run_after_fold [of 0 "after s" w c1 ?tr2 "st\<lparr>ext := u3\<rparr>"] assms(4)
  obtain post where
    post: "run_after 0 (after s) w (c1, ?tr2, st\<lparr>ext := u3\<rparr>) = (c2, ?tr2 @ post, s2)"
    and sh2: "map stage_of post = map Post_hook [0..<length (after s)]" by auto
  have "ServeHTTP_body s w r (ctx, tr, st) =
        (c2, tr @ pre @ [Call_dec c1 (Inr req), Call_h c1 req (Inr response)] @ post
               @ (case err of
                    None \<Rightarrow> [Call_enc c2 response None]
                  | Some e \<Rightarrow> [Call_enc c2 response (Some e), Call_errorHandler c2 e,
                               Call_errorEncoder c2 e]),
         (case err of
            None \<Rightarrow> s3
          | Some e \<Rightarrow> errorEncoder s c2 e w (s3\<lparr>ext := errorHandler s c2 e (ext s3)\<rparr>)))"
    using pre assms(2,3,5) post
    by (simp add: ServeHTTP_body_def ServeHTTP_encode_def report_error_eq split: option.splits)
  then show ?thesis using sh sh2 by blast
qed


text \<open>
  Claim C1. Let the pre-hooks, run in order from the request's context and the state
  before the call, give the context \<open>c1\<close> and the state \<open>u1\<close>. The decoder is called
  with them, and what it and the later stages return decides the call:
  \<^item> the decoder fails with \<open>e\<close>: the log is the pre-hooks in order, the decoder, the
    error router and the error encoder with \<open>e\<close>, then the finalizers in order; the
    handler, the post-hooks and the encoder are not called;
  \<^item> the decoder returns \<open>req\<close> and the handler fails with \<open>e\<close>: the same after the
    handler's call with \<open>req\<close>; the post-hooks and the encoder are not called;
  \<^item> the handler returns \<open>response\<close>, the post-hooks give \<open>c2\<close> and the encoder
    returns nil: the log is pre-hooks, decoder, handler, post-hooks in order, one call
    of the encoder, finalizers; the error router and the error encoder are not called;
  \<^item> the encoder fails with \<open>e\<close>: the same, with the error router and the error
    encoder called once after the encoder.
  In each case the state after the call is the state the last of these calls left,
  with the deferred function run on it. The writer handed to the callbacks is the
  intercepting writer when finalizers are configured and the caller's writer otherwise.
\<close>

theorem ServeHTTP_stage_order:
  fixes s :: "('k, 'x, 'r, 'i, 'o, 'u) Server" and w :: "'u ResponseWriter"
  defines "w' \<equiv> (if 0 < length (finalizer s) then via_iw else direct w)"
    and "iw0 \<equiv> \<lparr> ResponseWriter = w, code = 200, written = 0 \<rparr>"
  assumes pre: "fold (\<lambda>f (ctx, u). f ctx r u) (before s) (Context r, u) = (c1, u1)"
  shows
    "(dec s c1 r u1 = (Inl e, u2) \<longrightarrow>
        (\<exists>pre fin.
            fst (ServeHTTP kH kS s w r u) =
              pre @ [Call_dec c1 (Inl e), Call_errorHandler c1 e, Call_errorEncoder c1 e] @ fin
          \<and> map stage_of pre = map Pre_hook [0..<length (before s)]
          \<and> map stage_of fin = map Finalize [0..<length (finalizer s)])
        \<and> snd (ServeHTTP kH kS s w r u) =
            ext (snd (ServeHTTP_deferred kH kS s r
              (c1, [], errorEncoder s c1 e w' \<lparr> ext = errorHandler s c1 e u2, iw = iw0 \<rparr>))))
   \<and> (dec s c1 r u1 = (Inr req, u2) \<and> h s c1 req u2 = (Inl e, u3) \<longrightarrow>
        (\<exists>pre fin.
            fst (ServeHTTP kH kS s w r u) =
              pre @ [Call_dec c1 (Inr req), Call_h c1 req (Inl e),
                     Call_errorHandler c1 e, Call_errorEncoder c1 e] @ fin
          \<and> map stage_of pre = map Pre_hook [0..<length (before s)]
          \<and> map stage_of fin = map Finalize [0..<length (finalizer s)])
        \<and> snd (ServeHTTP kH kS s w r u) =
            ext (snd (ServeHTTP_deferred kH kS s r
              (c1, [], errorEncoder s c1 e w' \<lparr> ext = errorHandler s c1 e u3, iw = iw0 \<rparr>))))
   \<and> (dec s c1 r u1 = (Inr req, u2) \<and> h s c1 req u2 = (Inr response, u3)
        \<and> fold (\<lambda>f (ctx, st). f ctx w' st) (after s) (c1, \<lparr> ext = u3, iw = iw0 \<rparr>) = (c2, s2)
        \<and> enc s c2 w' response s2 = (None, s3) \<longrightarrow>
        (\<exists>pre post fin.
            fst (ServeHTTP kH kS s w r u) =
              pre @ [Call_dec c1 (Inr req), Call_h c1 req (Inr response)] @ post
                  @ [Call_enc c2 response None] @ fin
          \<and> map stage_of pre = map Pre_hook [0..<length (before s)]
          \<and> map stage_of post = map Post_hook [0..<length (after s)]
          \<and> map stage_of fin = map Finalize [0..<length (finalizer s)])
        \<and> snd (ServeHTTP kH kS s w r u) =
            ext (snd (ServeHTTP_deferred kH kS s r (c2, [], s3))))
   \<and> (dec s c1 r u1 = (Inr req, u2) \<and> h s c1 req u2 = (Inr response, u3)
        \<and> fold (\<lambda>f (ctx, st). f ctx w' st) (after s) (c1, \<lparr> ext = u3, iw = iw0 \<rparr>) = (c2, s2)
        \<and> enc s c2 w' response s2 = (Some e, s3) \<longrightarrow>
        (\<exists>pre post fin.
            fst (ServeHTTP kH kS s w r u) =
              pre @ [Call_dec c1 (Inr req), Call_h c1 req (Inr response)] @ post
                  @ [Call_enc c2 response (Some e), Call_errorHandler c2 e,
                     Call_errorEncoder c2 e] @ fin
          \<and> map stage_of pre = map Pre_hook [0..<length (before s)]
          \<and> map stage_of post = map Post_hook [0..<length (after s)]
          \<and> map stage_of fin = map Finalize [0..<length (finalizer s)])
        \<and> snd (ServeHTTP kH kS s w r u) =
            ext (snd (ServeHTTP_deferred kH kS s r
              (c2, [], errorEncoder s c2 e w' (s3\<lparr>ext := errorHandler s c2 e (ext s3)\<rparr>)))))"
proof -
  let ?st0 = "\<lparr> ext = u, iw = iw0 \<rparr>"
  have pre0: "fold (\<lambda>f (ctx, u). f ctx r u) (before s) (Context r, ext ?st0) = (c1, u1)"
    using pre by simp
  have of_body: "\<And>ctx tr st. ServeHTTP_body s w' r (Context r, [], ?st0) = (ctx, tr, st) \<Longrightarrow>
      (\<exists>fin. fst (ServeHTTP kH kS s w r u) = tr @ fin
            \<and> map stage_of fin = map Finalize [0..<length (finalizer s)])
       \<and> snd (ServeHTTP kH kS s w r u) = ext (snd (ServeHTTP_deferred kH kS s r (ctx, [], st)))"
    unfolding w'_def iw0_def by (rule ServeHTTP_of_body)
  show ?thesis
  proof (intro conjI impI)
    assume a: "dec s c1 r u1 = (Inl e, u2)"
    from ServeHTTP_body_decode_fails [OF pre0 a, of w' "[]"]
    obtain pre where
      b: "ServeHTTP_body s w' r (Context r, [], ?st0) =
        (c1, pre @ [Call_dec c1 (Inl e), Call_errorHandler c1 e, Call_errorEncoder c1 e],
         errorEncoder s c1 e w' \<lparr> ext = errorHandler s c1 e u2, iw = iw0 \<rparr>)"
      and sh: "map stage_of pre = map Pre_hook [0..<length (before s)]"
      by auto
    from of_body [OF b] sh
    show "\<exists>pre fin.
            fst (ServeHTTP kH kS s w r u) =
              pre @ [Call_dec c1 (Inl e), Call_errorHandler c1 e, Call_errorEncoder c1 e] @ fin
          \<and> map stage_of pre = map Pre_hook [0..<length (before s)]
          \<and> map stage_of fin = map Finalize [0..<length (finalizer s)]"
      by auto
    from of_body [OF b]
    show "snd (ServeHTTP kH kS s w r u) =
            ext (snd (ServeHTTP_deferred kH kS s r
              (c1, [], errorEncoder s c1 e w' \<lparr> ext = errorHandler s c1 e u2, iw = iw0 \<rparr>)))"
      by simp
  next
    assume a: "dec s c1 r u1 = (Inr req, u2) \<and> h s c1 req u2 = (Inl e, u3)"
    from ServeHTTP_body_handle_fails [OF pre0, of req u2 e u3 w' "[]"] a
    obtain pre where
      b: "ServeHTTP_body s w' r (Context r, [], ?st0) =
        (c1, pre @ [Call_dec c1 (Inr req), Call_h c1 req (Inl e),
                    Call_errorHandler c1 e, Call_errorEncoder c1 e],
         errorEncoder s c1 e w' \<lparr> ext = errorHandler s c1 e u3, iw = iw0 \<rparr>)"
      and sh: "map stage_of pre = map Pre_hook [0..<length (before s)]"
      by auto
    from of_body [OF b] sh
    show "\<exists>pre fin.
            fst (ServeHTTP kH kS s w r u) =
              pre @ [Call_dec c1 (Inr req), Call_h c1 req (Inl e),
                     Call_errorHandler c1 e, Call_errorEncoder c1 e] @ fin
          \<and> map stage_of pre = map Pre_hook [0..<length (before s)]
          \<and> map stage_of fin = map Finalize [0..<length (finalizer s)]"
      by auto
    from of_body [OF b]
    show "snd (ServeHTTP kH kS s w r u) =
            ext (snd (ServeHTTP_deferred kH kS s r
              (c1, [], errorEncoder s c1 e w' \<lparr> ext = errorHandler s c1 e u3, iw = iw0 \<rparr>)))"
      by simp
  next
    assume a: "dec s c1 r u1 = (Inr req, u2) \<and> h s c1 req u2 = (Inr response, u3)
        \<and> fold (\<lambda>f (ctx, st). f ctx w' st) (after s) (c1, \<lparr> ext = u3, iw = iw0 \<rparr>) = (c2, s2)
        \<and> enc s c2 w' response s2 = (None, s3)"
    from ServeHTTP_body_encode [OF pre0, of req u2 response u3 w' c2 s2 None s3 "[]"] a
    obtain pre post where
      b: "ServeHTTP_body s w' r (Context r, [], ?st0) =
        (c2, pre @ [Call_dec c1 (Inr req), Call_h c1 req (Inr response)] @ post
               @ [Call_enc c2 response None], s3)"
      and sh: "map stage_of pre = map Pre_hook [0..<length (before s)]"
        "map stage_of post = map Post_hook [0..<length (after s)]"
      by auto
    from of_body [OF b] sh
    show "\<exists>pre post fin.
            fst (ServeHTTP kH kS s w r u) =
              pre @ [Call_dec c1 (Inr req), Call_h c1 req (Inr response)] @ post
                  @ [Call_enc c2 response None] @ fin
          \<and> map stage_of pre = map Pre_hook [0..<length (before s)]
          \<and> map stage_of post = map Post_hook [0..<length (after s)]
          \<and> map stage_of fin = map Finalize [0..<length (finalizer s)]"
      by auto
    from of_body [OF b]
    show "snd (ServeHTTP kH kS s w r u) =
            ext (snd (ServeHTTP_deferred kH kS s r (c2, [], s3)))"
      by simp
  next
    assume a: "dec s c1 r u1 = (Inr req, u2) \<and> h s c1 req u2 = (Inr response, u3)
        \<and> fold (\<lambda>f (ctx, st). f ctx w' st) (after s) (c1, \<lparr> ext = u3, iw = iw0 \<rparr>) = (c2, s2)
        \<and> enc s c2 w' response s2 = (Some e, s3)"
    from ServeHTTP_body_encode [OF pre0, of req u2 response u3 w' c2 s2 "Some e" s3 "[]"] a
    obtain pre post where
      b: "ServeHTTP_body s w' r (Context r, [], ?st0) =
        (c2, pre @ [Call_dec c1 (Inr req), Call_h c1 req (Inr response)] @ post
               @ [Call_enc c2 response (Some e), Call_errorHandler c2 e, Call_errorEncoder c2 e],
         errorEncoder s c2 e w' (s3\<lparr>ext := errorHandler s c2 e (ext s3)\<rparr>))"
      and sh: "map stage_of pre = map Pre_hook [0..<length (before s)]"
        "map stage_of post = map Post_hook [0..<length (after s)]"
      by auto
    from of_body [OF b] sh
    show "\<exists>pre post fin.
            fst (ServeHTTP kH kS s w r u) =
              pre @ [Call_dec c1 (Inr req), Call_h c1 req (Inr response)] @ post
                  @ [Call_enc c2 response (Some e), Call_errorHandler c2 e,
                     Call_errorEncoder c2 e] @ fin
          \<and> map stage_of pre = map Pre_hook [0..<length (before s)]
          \<and> map stage_of post = map Post_hook [0..<length (after s)]
          \<and> map stage_of fin = map Finalize [0..<length (finalizer s)]"
      by auto
    from of_body [OF b]
    show "snd (ServeHTTP kH kS s w r u) =
            ext (snd (ServeHTTP_deferred kH kS s r
              (c2, [], errorEncoder s c2 e w' (s3\<lparr>ext := errorHandler s c2 e (ext s3)\<rparr>))))"
      by simp
  qed
qed



theorem ServeHTTP_stage_order_witness:
  "ServeHTTP 0 1 (staged_server (Inl empty_body) (Inr ''{}'')) (logging (stub accept_all))
     \<lparr> Context = [], payload = () \<rparr> ((), []) =
     ([Call_before 0 [], Call_dec [(7, User_val ())] (Inl empty_body),
       Call_errorHandler [(7, User_val ())] empty_body,
       Call_errorEncoder [(7, User_val ())] empty_body],
      ((), [Set_call ''Content-Type'' ''text/plain; charset=utf-8'', WriteHeader_call 500,
            Write_call ''empty body'']))
   \<and> ServeHTTP 0 1 (staged_server (Inr ''{}'') (Inl empty_body)) (logging (stub accept_all))
     \<lparr> Context = [], payload = () \<rparr> ((), []) =
     ([Call_before 0 [], Call_dec [(7, User_val ())] (Inr ''{}''),
       Call_h [(7, User_val ())] ''{}'' (Inl empty_body),
       Call_errorHandler [(7, User_val ())] empty_body,
       Call_errorEncoder [(7, User_val ())] empty_body],
      ((), [Set_call ''Content-Type'' ''text/plain; charset=utf-8'', WriteHeader_call 500,
            Write_call ''empty body'']))
   \<and> ServeHTTP 0 1 (staged_server (Inr ''{}'') (Inr ''[]'')) (logging (stub accept_all))
     \<lparr> Context = [], payload = () \<rparr> ((), []) =
     ([Call_before 0 [], Call_dec [(7, User_val ())] (Inr ''{}''),
       Call_h [(7, User_val ())] ''{}'' (Inr ''[]''),
       Call_after 0 [(7, User_val ())],
       Call_enc [(7, User_val ())] ''[]'' None],
      ((), [Set_call ''X-Post'' ''1'',
            Set_call ''Content-Type'' ''application/json; charset=utf-8'', WriteHeader_call 200,
            Write_call [CHR ''['', CHR '']'', CHR 0x0A]]))
   \<and> ServeHTTP 0 1 (staged_server (Inr ''{}'') (Inr ''[]'')) (logging (stub broken_pipe))
     \<lparr> Context = [], payload = () \<rparr> ((), []) =
     ([Call_before 0 [], Call_dec [(7, User_val ())] (Inr ''{}''),
       Call_h [(7, User_val ())] ''{}'' (Inr ''[]''),
       Call_after 0 [(7, User_val ())],
       Call_enc [(7, User_val ())] ''[]'' (Some (GoError ''broken pipe'' None None None)),
       Call_errorHandler [(7, User_val ())] (GoError ''broken pipe'' None None None),
       Call_errorEncoder [(7, User_val ())] (GoError ''broken pipe'' None None None)],
      ((), [Set_call ''X-Post'' ''1'',
            Set_call ''Content-Type'' ''application/json; charset=utf-8'', WriteHeader_call 200,
            Write_call [CHR ''['', CHR '']'', CHR 0x0A],
            Set_call ''Content-Type'' ''text/plain; charset=utf-8'', WriteHeader_call 500,
            Write_call ''broken pipe'']))"
  using
    ServeHTTP_stage_order
      [where s = "staged_server (Inl empty_body) (Inr ''{}'')" and w = "logging (stub accept_all)"
         and r = "\<lparr> Context = [], payload = () \<rparr>" and u = "((), [])" and kH = 0 and kS = 1
         and ?c1.0 = "[(7, User_val ())]" and ?u1.0 = "((), [])" and e = empty_body
         and ?u2.0 = "((), [])"]
    ServeHTTP_stage_order
      [where s = "staged_server (Inr ''{}'') (Inl empty_body)" and w = "logging (stub accept_all)"
         and r = "\<lparr> Context = [], payload = () \<rparr>" and u = "((), [])" and kH = 0 and kS = 1
         and ?c1.0 = "[(7, User_val ())]" and ?u1.0 = "((), [])" and e = empty_body
         and ?u2.0 = "((), [])" and req = "''{}''" and ?u3.0 = "((), [])"]
    ServeHTTP_stage_order
      [where s = "staged_server (Inr ''{}'') (Inr ''[]'')" and w = "logging (stub accept_all)"
         and r = "\<lparr> Context = [], payload = () \<rparr>" and u = "((), [])" and kH = 0 and kS = 1
         and ?c1.0 = "[(7, User_val ())]" and ?u1.0 = "((), [])"
         and ?u2.0 = "((), [])" and req = "''{}''" and ?u3.0 = "((), [])" and response = "''[]''"
         and ?c2.0 = "[(7, User_val ())]"
         and ?s2.0 = "\<lparr> ext = ((), [Set_call ''X-Post'' ''1'']),
                iw = \<lparr> ResponseWriter = logging (stub accept_all), code = 200, written = 0 \<rparr> \<rparr>"
         and ?s3.0 = "\<lparr> ext = ((), [Set_call ''X-Post'' ''1'',
                  Set_call ''Content-Type'' ''application/json; charset=utf-8'',
                  WriteHeader_call 200, Write_call [CHR ''['', CHR '']'', CHR 0x0A]]),
                iw = \<lparr> ResponseWriter = logging (stub accept_all), code = 200, written = 0 \<rparr> \<rparr>"]
    ServeHTTP_stage_order
      [where s = "staged_server (Inr ''{}'') (Inr ''[]'')" and w = "logging (stub broken_pipe)"
         and r = "\<lparr> Context = [], payload = () \<rparr>" and u = "((), [])" and kH = 0 and kS = 1
         and ?c1.0 = "[(7, User_val ())]" and ?u1.0 = "((), [])"
         and e = "GoError ''broken pipe'' None None None"
         and ?u2.0 = "((), [])" and req = "''{}''" and ?u3.0 = "((), [])" and response = "''[]''"
         and ?c2.0 = "[(7, User_val ())]"
         and ?s2.0 = "\<lparr> ext = ((), [Set_call ''X-Post'' ''1'']),
                iw = \<lparr> ResponseWriter = logging (stub broken_pipe), code = 200, written = 0 \<rparr> \<rparr>"
         and ?s3.0 = "\<lparr> ext = ((), [Set_call ''X-Post'' ''1'',
                  Set_call ''Content-Type'' ''application/json; charset=utf-8'',
                  WriteHeader_call 200, Write_call [CHR ''['', CHR '']'', CHR 0x0A]]),
                iw = \<lparr> ResponseWriter = logging (stub broken_pipe), code = 200, written = 0 \<rparr> \<rparr>"]
  by (simp add: staged_server_def sample_server_def empty_body_def eval_defs broken_pipe_def)


subsection \<open>The stages of a call\<close>

lemma ServeHTTP_log_of_body:
  "\<exists>ctx evs st.
     ServeHTTP_body s (if 0 < length (finalizer s) then via_iw else direct w) r
       (Context r, [], \<lparr> ext = u, iw = \<lparr> ResponseWriter = w, code = StatusOK, written = 0 \<rparr> \<rparr>)
       = (ctx, evs, st)
   \<and> map stage_of (fst (ServeHTTP kH kS s w r u))
       = map stage_of evs @ map Finalize [0..<length (finalizer s)]"
proof -
  let ?st0 = "\<lparr> ext = u, iw = \<lparr> ResponseWriter = w, code = 200, written = 0 \<rparr> \<rparr>"
  let ?w = "if 0 < length (finalizer s) then via_iw else direct w"
  obtain ctx evs st where body: "ServeHTTP_body s ?w r (Context r, [], ?st0) = (ctx, evs, st)"
    by (metis prod_cases3)
  from ServeHTTP_of_body [OF body, of kH kS]
  have "map stage_of (fst (ServeHTTP kH kS s w r u))
      = map stage_of evs @ map Finalize [0..<length (finalizer s)]"
    by auto
  then show ?thesis using body by (simp add: StatusOK_def)
qed

lemma ServeHTTP_stages:
  "map stage_of (fst (ServeHTTP kH kS s w r u)) =
       map Pre_hook [0..<length (before s)] @ [Decode False, Route, Encode_error]
       @ map Finalize [0..<length (finalizer s)]
   \<or> map stage_of (fst (ServeHTTP kH kS s w r u)) =
       map Pre_hook [0..<length (before s)] @ [Decode True, Handle False, Route, Encode_error]
       @ map Finalize [0..<length (finalizer s)]
   \<or> map stage_of (fst (ServeHTTP kH kS s w r u)) =
       map Pre_hook [0..<length (before s)] @ [Decode True, Handle True]
       @ map Post_hook [0..<length (after s)] @ [Encode True]
       @ map Finalize [0..<length (finalizer s)]
   \<or> map stage_of (fst (ServeHTTP kH kS s w r u)) =
       map Pre_hook [0..<length (before s)] @ [Decode True, Handle True]
       @ map Post_hook [0..<length (after s)] @ [Encode False, Route, Encode_error]
       @ map Finalize [0..<length (finalizer s)]"
proof -
  let ?st0 = "\<lparr> ext = u, iw = \<lparr> ResponseWriter = w, code = StatusOK, written = 0 \<rparr> \<rparr>"
  let ?w = "if 0 < length (finalizer s) then via_iw else direct w"
  obtain ctx evs st where
    body: "ServeHTTP_body s ?w r (Context r, [], ?st0) = (ctx, [] @ evs, st)"
    and shape: "map stage_of evs = map Pre_hook [0..<length (before s)] @ [Decode False, Route, Encode_error]
        \<or> map stage_of evs =
            map Pre_hook [0..<length (before s)] @ [Decode True, Handle False, Route, Encode_error]
        \<or> map stage_of evs =
            map Pre_hook [0..<length (before s)] @ [Decode True, Handle True]
            @ map Post_hook [0..<length (after s)] @ [Encode True]
        \<or> map stage_of evs =
            map Pre_hook [0..<length (before s)] @ [Decode True, Handle True]
            @ map Post_hook [0..<length (after s)] @ [Encode False, Route, Encode_error]"
    using ServeHTTP_body_stages [of s ?w r "Context r" "[]" ?st0] by blast
  have "map stage_of (fst (ServeHTTP kH kS s w r u))
      = map stage_of evs @ map Finalize [0..<length (finalizer s)]"
    using ServeHTTP_log_of_body [of s w r u kH kS] body by auto
  then show ?thesis using shape by auto
qed

subsection \<open>Finalizers\<close>

lemma filter_stage_shapes:
  "filter is_Finalize (map Pre_hook xs) = []"
  "filter is_Finalize (map Post_hook xs) = []"
  by (induction xs) auto

lemma is_Call_finalizer_stage: "is_Call_finalizer e = is_Finalize (stage_of e)"
  by (cases e) auto

lemma no_finalizer_call:
  assumes "filter is_Finalize (map stage_of evs) = []"
  shows "filter is_Call_finalizer evs = []"
  using assms by (induction evs) (auto simp: is_Call_finalizer_stage split: if_splits)

lemma ServeHTTP_body_no_finalizer:
  assumes "ServeHTTP_body s w r (ctx, [], st) = (ctx', tr, st')"
  shows "filter is_Call_finalizer tr = []"
proof -
  from ServeHTTP_body_stages [of s w r ctx "[]" st] assms
  have "map stage_of tr = map Pre_hook [0..<length (before s)] @ [Decode False, Route, Encode_error]
        \<or> map stage_of tr =
            map Pre_hook [0..<length (before s)] @ [Decode True, Handle False, Route, Encode_error]
        \<or> map stage_of tr =
            map Pre_hook [0..<length (before s)] @ [Decode True, Handle True]
            @ map Post_hook [0..<length (after s)] @ [Encode True]
        \<or> map stage_of tr =
            map Pre_hook [0..<length (before s)] @ [Decode True, Handle True]
            @ map Post_hook [0..<length (after s)] @ [Encode False, Route, Encode_error]"
    by auto
  then have "filter is_Finalize (map stage_of tr) = []"
    by (auto simp: filter_stage_shapes)
  then show ?thesis by (rule no_finalizer_call)
qed

lemma fold_keeps_code:
  assumes "\<forall>f \<in> set fs. \<forall>c k st'. code (iw (f c k r st')) = code (iw st')"
  shows "code (iw (fold (\<lambda>f st'. f ctx (code (iw st')) r st') fs st)) = code (iw st)"
  using assms by (induction fs arbitrary: st) simp_all

text \<open>
  Claim C2. With at least one finalizer configured, the log of a call is the log of
  its body, which holds no finalizer call, followed by one call of each finalizer in
  order, whichever branch the body took. Every finalizer is called with the same
  context: the one the body ended with, extended by the live header map of the
  wrapped writer (read when the body has returned, it holds what \<^verbatim>\<open>iw.Header()\<close>
  holds) and by the byte count the intercepting writer has recorded by then. Each is
  called with the status code the intercepting writer holds at that moment, that is
  after the finalizers before it have run; when no finalizer changes the recorded
  code, this is for all of them the code recorded when the body returned. The state
  after the call is the state after the body with the finalizers applied in order.
  The byte count is found under its key, and the headers under theirs when the two
  keys differ.
\<close>

theorem ServeHTTP_finalizers:
  assumes "finalizer s \<noteq> []"
  shows "\<exists>ctx tr st ctx'.
      ServeHTTP_body s via_iw r
        (Context r, [], \<lparr> ext = u, iw = \<lparr> ResponseWriter = w, code = 200, written = 0 \<rparr> \<rparr>)
        = (ctx, tr, st)
    \<and> ctx' = WithValue (WithValue ctx kH (Headers_ref (Header (ResponseWriter (iw st))))) kS
               (Int64_val (written (iw st)))
    \<and> filter is_Call_finalizer tr = []
    \<and> fst (ServeHTTP kH kS s w r u) =
        tr @ map (\<lambda>i. Call_finalizer i ctx'
                   (code (iw (fold (\<lambda>f st'. f ctx' (code (iw st')) r st')
                                (take i (finalizer s)) st))))
               [0..<length (finalizer s)]
    \<and> snd (ServeHTTP kH kS s w r u) =
        ext (fold (\<lambda>f st'. f ctx' (code (iw st')) r st') (finalizer s) st)
    \<and> Value ctx' kS = Some (Int64_val (written (iw st)))
    \<and> (kH \<noteq> kS \<longrightarrow> Value ctx' kH = Some (Headers_ref (Header (ResponseWriter (iw st)))))
    \<and> Header (ResponseWriter (iw st)) (ext st) = Header via_iw st
    \<and> ((\<forall>f \<in> set (finalizer s). \<forall>c k st'. code (iw (f c k r st')) = code (iw st')) \<longrightarrow>
         fst (ServeHTTP kH kS s w r u) =
           tr @ map (\<lambda>i. Call_finalizer i ctx' (code (iw st))) [0..<length (finalizer s)])"
proof -
  let ?st0 = "\<lparr> ext = u, iw = \<lparr> ResponseWriter = w, code = 200, written = 0 \<rparr> \<rparr>"
  obtain ctx tr st where body: "ServeHTTP_body s via_iw r (Context r, [], ?st0) = (ctx, tr, st)"
    by (metis prod_cases3)
  let ?ctx' = "WithValue (WithValue ctx kH (Headers_ref (Header (ResponseWriter (iw st))))) kS
               (Int64_val (written (iw st)))"
  let ?F = "\<lambda>fs. fold (\<lambda>f st'. f ?ctx' (code (iw st')) r st') fs st"
  have nofin: "filter is_Call_finalizer tr = []"
    using body by (rule ServeHTTP_body_no_finalizer)
  have run: "ServeHTTP kH kS s w r u =
      (tr @ map (\<lambda>i. Call_finalizer i ?ctx' (code (iw (?F (take i (finalizer s))))))
              [0..<length (finalizer s)],
       ext (?F (finalizer s)))"
    using assms body by (simp add: ServeHTTP_eq ServeHTTP_deferred_eq)
  have kS: "Value ?ctx' kS = Some (Int64_val (written (iw st)))"
    by (simp add: Value_def WithValue_def)
  have kH: "kH \<noteq> kS \<longrightarrow> Value ?ctx' kH = Some (Headers_ref (Header (ResponseWriter (iw st))))"
    by (simp add: Value_def WithValue_def)
  have hd: "Header (ResponseWriter (iw st)) (ext st) = Header via_iw st"
    by (simp add: via_iw_def)
  have same: "(\<forall>f \<in> set (finalizer s). \<forall>c k st'. code (iw (f c k r st')) = code (iw st')) \<longrightarrow>
         fst (ServeHTTP kH kS s w r u) =
           tr @ map (\<lambda>i. Call_finalizer i ?ctx' (code (iw st))) [0..<length (finalizer s)]"
  proof
    assume keep: "\<forall>f \<in> set (finalizer s). \<forall>c k st'. code (iw (f c k r st')) = code (iw st')"
    have "code (iw (?F (take i (finalizer s)))) = code (iw st)" for i
    proof (rule fold_keeps_code)
      show "\<forall>f \<in> set (take i (finalizer s)). \<forall>c k st'. code (iw (f c k r st')) = code (iw st')"
        using keep by (meson in_set_takeD)
    qed
    then show "fst (ServeHTTP kH kS s w r u) =
           tr @ map (\<lambda>i. Call_finalizer i ?ctx' (code (iw st))) [0..<length (finalizer s)]"
      using run by simp
  qed
  from body nofin run kS kH hd same show ?thesis
    by (intro exI [of _ ctx] exI [of _ tr] exI [of _ st] exI [of _ ?ctx']) simp
qed

theorem ServeHTTP_finalizers_witness:
  "finalizer ((sample_server (Inl empty_body) DefaultErrorEncoder)
        \<lparr> finalizer := [\<lambda>ctx c r st. WriteHeader via_iw 418 st, \<lambda>ctx c r st. st] \<rparr>) \<noteq> []
   \<and> ServeHTTP 0 1
        ((sample_server (Inl empty_body) DefaultErrorEncoder)
           \<lparr> finalizer := [\<lambda>ctx c r st. WriteHeader via_iw 418 st, \<lambda>ctx c r st. st] \<rparr>)
        (logging (stub accept_all)) \<lparr> Context = [], payload = () \<rparr> ((), []) =
      ([Call_dec [] (Inl empty_body),
        Call_errorHandler [] empty_body,
        Call_errorEncoder [] empty_body,
        Call_finalizer 0
          [(1, Int64_val 10), (0, Headers_ref (Header (logging (stub accept_all))))] 500,
        Call_finalizer 1
          [(1, Int64_val 10), (0, Headers_ref (Header (logging (stub accept_all))))] 418],
       ((), [Set_call ''Content-Type'' ''text/plain; charset=utf-8'', WriteHeader_call 500,
             Write_call ''empty body'', WriteHeader_call 418]))
   \<and> ServeHTTP 0 1 (sample_server (Inl empty_body) DefaultErrorEncoder)
        (logging (stub accept_all)) \<lparr> Context = [], payload = () \<rparr> ((), []) =
      ([Call_dec [] (Inl empty_body),
        Call_errorHandler [] empty_body,
        Call_errorEncoder [] empty_body,
        Call_finalizer 0
          [(1, Int64_val 10), (0, Headers_ref (Header (logging (stub accept_all))))] 500],
       ((), [Set_call ''Content-Type'' ''text/plain; charset=utf-8'', WriteHeader_call 500,
             Write_call ''empty body'']))"
  using ServeHTTP_finalizers
    [where s = "sample_server (Inl empty_body) DefaultErrorEncoder"
      and w = "logging (stub accept_all)" and r = "\<lparr> Context = [], payload = () \<rparr>"
      and u = "((), [])" and kH = 0 and kS = 1]
    ServeHTTP_finalizers
    [where s = "(sample_server (Inl empty_body) DefaultErrorEncoder)
           \<lparr> finalizer := [\<lambda>ctx c r st. WriteHeader via_iw 418 st, \<lambda>ctx c r st. st] \<rparr>"
      and w = "logging (stub accept_all)" and r = "\<lparr> Context = [], payload = () \<rparr>"
      and u = "((), [])" and kH = 0 and kS = 1]
  by (simp add: sample_server_def empty_body_def eval_defs)

subsection \<open>A failing encoder\<close>

text \<open>
  Claim C8. When the encoder returns an error \<open>e\<close> and leaves the store \<open>st'\<close>, lines
  186-190 of \<^verbatim>\<open>ServeHTTP\<close> pass \<open>e\<close> to the error router and then call the error
  encoder with \<open>e\<close> and the same writer, on the store the encoder left: whatever the
  encoder wrote stays written, and the error encoder writes after it. In every call
  of \<^verbatim>\<open>ServeHTTP\<close> whose encoder fails, the encoder is followed by the error router
  and the error encoder, and then by the finalizers.
\<close>

theorem ServeHTTP_encode_failure:
  "(enc s ctx w' response st = (Some e, st') \<longrightarrow>
      ServeHTTP_encode s w' response (ctx, tr, st) =
        (ctx, tr @ [Call_enc ctx response (Some e), Call_errorHandler ctx e, Call_errorEncoder ctx e],
         errorEncoder s ctx e w' (st'\<lparr>ext := errorHandler s ctx e (ext st')\<rparr>)))
   \<and> (Encode False \<in> set (map stage_of (fst (ServeHTTP kH kS s w r u))) \<longrightarrow>
        map stage_of (fst (ServeHTTP kH kS s w r u)) =
          map Pre_hook [0..<length (before s)] @ [Decode True, Handle True]
          @ map Post_hook [0..<length (after s)] @ [Encode False, Route, Encode_error]
          @ map Finalize [0..<length (finalizer s)])"
proof (intro conjI impI)
  assume "enc s ctx w' response st = (Some e, st')"
  then show "ServeHTTP_encode s w' response (ctx, tr, st) =
        (ctx, tr @ [Call_enc ctx response (Some e), Call_errorHandler ctx e, Call_errorEncoder ctx e],
         errorEncoder s ctx e w' (st'\<lparr>ext := errorHandler s ctx e (ext st')\<rparr>))"
    by (simp add: ServeHTTP_encode_def report_error_eq)
next
  define stages where "stages = map stage_of (fst (ServeHTTP kH kS s w r u))"
  assume "Encode False \<in> set (map stage_of (fst (ServeHTTP kH kS s w r u)))"
  then have mem: "Encode False \<in> set stages" by (simp only: stages_def)
  have "stages = map Pre_hook [0..<length (before s)] @ [Decode False, Route, Encode_error]
          @ map Finalize [0..<length (finalizer s)]
      \<or> stages = map Pre_hook [0..<length (before s)] @ [Decode True, Handle False, Route, Encode_error]
          @ map Finalize [0..<length (finalizer s)]
      \<or> stages = map Pre_hook [0..<length (before s)] @ [Decode True, Handle True]
          @ map Post_hook [0..<length (after s)] @ [Encode True]
          @ map Finalize [0..<length (finalizer s)]
      \<or> stages = map Pre_hook [0..<length (before s)] @ [Decode True, Handle True]
          @ map Post_hook [0..<length (after s)] @ [Encode False, Route, Encode_error]
          @ map Finalize [0..<length (finalizer s)]"
    unfolding stages_def by (rule ServeHTTP_stages)
  then have "stages = map Pre_hook [0..<length (before s)] @ [Decode True, Handle True]
          @ map Post_hook [0..<length (after s)] @ [Encode False, Route, Encode_error]
          @ map Finalize [0..<length (finalizer s)]"
    using mem by auto
  then show "map stage_of (fst (ServeHTTP kH kS s w r u)) =
          map Pre_hook [0..<length (before s)] @ [Decode True, Handle True]
          @ map Post_hook [0..<length (after s)] @ [Encode False, Route, Encode_error]
          @ map Finalize [0..<length (finalizer s)]"
    by (simp only: stages_def)
qed

theorem ServeHTTP_encode_failure_witness:
  "enc (sample_server (Inr ''{}'') DefaultErrorEncoder) [] (direct (logging (stub broken_pipe))) ''{}''
       \<lparr> ext = ((), []), iw = \<lparr> ResponseWriter = logging (stub broken_pipe), code = 200, written = 0 \<rparr> \<rparr>
     = (Some (GoError ''broken pipe'' None None None),
        \<lparr> ext = ((), [Set_call ''Content-Type'' ''application/json; charset=utf-8'',
                      WriteHeader_call 200, Write_call [CHR ''{'', CHR ''}'', CHR 0x0A]]),
          iw = \<lparr> ResponseWriter = logging (stub broken_pipe), code = 200, written = 0 \<rparr> \<rparr>)
   \<and> snd (ext (snd (snd (ServeHTTP_encode (sample_server (Inr ''{}'') DefaultErrorEncoder)
        (direct (logging (stub broken_pipe))) ''{}''
        ([], [], \<lparr> ext = ((), []),
                    iw = \<lparr> ResponseWriter = logging (stub broken_pipe), code = 200, written = 0 \<rparr> \<rparr>)))))
     = [Set_call ''Content-Type'' ''application/json; charset=utf-8'',
        WriteHeader_call 200, Write_call [CHR ''{'', CHR ''}'', CHR 0x0A],
        Set_call ''Content-Type'' ''text/plain; charset=utf-8'',
        WriteHeader_call 500, Write_call ''broken pipe'']
   \<and> ServeHTTP 0 1 (sample_server (Inr ''{}'') DefaultErrorEncoder) (logging (stub broken_pipe))
        \<lparr> Context = [], payload = () \<rparr> ((), []) =
      ([Call_dec [] (Inr ''{}''), Call_h [] ''{}'' (Inr ''{}''),
        Call_enc [] ''{}'' (Some (GoError ''broken pipe'' None None None)),
        Call_errorHandler [] (GoError ''broken pipe'' None None None),
        Call_errorEncoder [] (GoError ''broken pipe'' None None None),
        Call_finalizer 0
          [(1, Int64_val 0), (0, Headers_ref (Header (logging (stub broken_pipe))))] 500],
       ((), [Set_call ''Content-Type'' ''application/json; charset=utf-8'',
             WriteHeader_call 200, Write_call [CHR ''{'', CHR ''}'', CHR 0x0A],
             Set_call ''Content-Type'' ''text/plain; charset=utf-8'',
             WriteHeader_call 500, Write_call ''broken pipe'']))"
  using ServeHTTP_encode_failure
    [where s = "sample_server (Inr ''{}'') DefaultErrorEncoder" and ctx = "[]"
       and w' = "direct (logging (stub broken_pipe))" and response = "''{}''"
       and st = "\<lparr> ext = ((), []),
                    iw = \<lparr> ResponseWriter = logging (stub broken_pipe), code = 200, written = 0 \<rparr> \<rparr>"
       and tr = "[]" and e = "GoError ''broken pipe'' None None None"
       and w = "logging (stub broken_pipe)" and r = "\<lparr> Context = [], payload = () \<rparr>"
       and u = "((), [])" and kH = 0 and kS = 1]
  by (simp add: sample_server_def eval_defs broken_pipe_def)

subsection \<open>The default error router\<close>

lemma fold_options_errorHandler:
  assumes "\<forall>option \<in> set options. \<forall>s. errorHandler (option s) = errorHandler s"
  shows "errorHandler (fold (\<lambda>option s. option s) options s0) = errorHandler s0"
  using assms by (induction options arbitrary: s0) simp_all

lemma fold_options_errorEncoder:
  assumes "\<forall>option \<in> set options. \<forall>s. errorEncoder (option s) = errorEncoder s"
  shows "errorEncoder (fold (\<lambda>option s. option s) options s0) = errorEncoder s0"
  using assms by (induction options arbitrary: s0) simp_all

lemma LogErrorHandler_noop: "ErrorHandlerFunc LogErrorHandler = (\<lambda>ctx err u. u)"
  by (simp add: fun_eq_iff ErrorHandlerFunc_def LogErrorHandler_def)
lemma options_keep_errorHandler:
  "errorHandler (ServerBefore bs s) = errorHandler s"
  "errorHandler (ServerAfter as s) = errorHandler s"
  "errorHandler (ServerFinalizer fs s) = errorHandler s"
  by (simp_all add: ServerBefore_def ServerAfter_def ServerFinalizer_def)

text \<open>
  Claim C7. A server built by \<^verbatim>\<open>NewServer\<close> with options that leave the error router
  alone (as \<^verbatim>\<open>ServerBefore\<close>, \<^verbatim>\<open>ServerAfter\<close> and \<^verbatim>\<open>ServerFinalizer\<close> do) has the
  default router, which returns the state it is given. On every failure the failure
  branch therefore calls the error encoder on the store as the failing stage left it;
  and when the options leave the error encoder alone as well, that encoder is
  \<^verbatim>\<open>DefaultErrorEncoder\<close>.
\<close>

theorem NewServer_default_errorHandler:
  assumes "\<forall>option \<in> set options. \<forall>s. errorHandler (option s) = errorHandler s"
  shows "errorHandler (NewServer H D E options) = (\<lambda>ctx err u. u)
    \<and> report_error (NewServer H D E options) w ctx err (tr, st) =
        (tr @ [Call_errorHandler ctx err, Call_errorEncoder ctx err],
         errorEncoder (NewServer H D E options) ctx err w st)
    \<and> ((\<forall>option \<in> set options. \<forall>s. errorEncoder (option s) = errorEncoder s) \<longrightarrow>
         errorEncoder (NewServer H D E options) = DefaultErrorEncoder)"
proof -
  have eh: "errorHandler (NewServer H D E options) = (\<lambda>ctx err u. u)"
    using fold_options_errorHandler [OF assms]
    by (simp add: NewServer_def LogErrorHandler_noop)
  moreover have "report_error (NewServer H D E options) w ctx err (tr, st) =
        (tr @ [Call_errorHandler ctx err, Call_errorEncoder ctx err],
         errorEncoder (NewServer H D E options) ctx err w st)"
    by (simp add: report_error_eq eh)
  moreover have "(\<forall>option \<in> set options. \<forall>s. errorEncoder (option s) = errorEncoder s) \<longrightarrow>
         errorEncoder (NewServer H D E options) = DefaultErrorEncoder"
    using fold_options_errorEncoder [of options]
    by (simp add: NewServer_def)
  ultimately show ?thesis by blast
qed
theorem NewServer_default_errorHandler_witness:
  "errorHandler
     (NewServer (\<lambda>ctx req u. (Inr req, u))
        (\<lambda>ctx r u. (Inl (GoError ''empty body'' None None None), u))
        (EncodeJSONResponse \<lparr> asHeaderer_of = (\<lambda>v. None), asStatusCoder_of = (\<lambda>v. None),
                json_Marshal = (\<lambda>v. Inr v) \<rparr>)
        [ServerBefore [\<lambda>ctx r u. (ctx, u)], ServerFinalizer [\<lambda>ctx c r st. st]]
      :: (nat, unit, unit, string, string, nat) Server)
     [] (GoError ''empty body'' None None None) 7 = 7"
proof -
  let ?opts = "[ServerBefore [\<lambda>ctx r u. (ctx, u)], ServerFinalizer [\<lambda>ctx c r st. st]]
      :: (nat, unit, unit, string, string, nat) ServerOption list"
  have keep: "\<forall>option \<in> set ?opts. \<forall>s. errorHandler (option s) = errorHandler s"
    by (simp add: options_keep_errorHandler)
  show ?thesis
    using NewServer_default_errorHandler [OF keep] by simp
qed

section \<open>Properties of the intercepting writer and of the wrapper\<close>

text \<open>
  Claim C5. \<^verbatim>\<open>WriteHeader(c)\<close> on the intercepting writer records \<open>c\<close> and passes \<open>c\<close>
  to the wrapped writer. \<^verbatim>\<open>Write(p)\<close> passes \<open>p\<close> to the wrapped writer, adds the
  count that writer returned to \<^verbatim>\<open>written\<close> (in 64-bit arithmetic) and returns that
  writer's count and error as they are. \<^verbatim>\<open>Header\<close> and the changes made through it go
  to the wrapped writer. No method changes anything else. When finalizers are
  configured, \<^verbatim>\<open>ServeHTTP\<close> runs its body on an intercepting writer that wraps the
  caller's writer and starts with code 200 and byte count 0.
\<close>

theorem interceptingWriter_pass_through:
  "interceptingWriter_WriteHeader i c u = (i\<lparr>code := c\<rparr>, WriteHeader (ResponseWriter i) c u)
   \<and> interceptingWriter_Write i p u =
        (fst (Write (ResponseWriter i) p u),
         i\<lparr>written := written i + word_of_int (fst (fst (Write (ResponseWriter i) p u)))\<rparr>,
         snd (Write (ResponseWriter i) p u))
   \<and> Header via_iw st = Header (ResponseWriter (iw st)) (ext st)
   \<and> Header_Set via_iw k v st = st\<lparr>ext := Header_Set (ResponseWriter (iw st)) k v (ext st)\<rparr>
   \<and> Header_Add via_iw k v st = st\<lparr>ext := Header_Add (ResponseWriter (iw st)) k v (ext st)\<rparr>
   \<and> WriteHeader via_iw c st =
        st\<lparr>ext := WriteHeader (ResponseWriter (iw st)) c (ext st), iw := (iw st)\<lparr>code := c\<rparr>\<rparr>
   \<and> fst (Write via_iw p st) = fst (Write (ResponseWriter (iw st)) p (ext st))
   \<and> ext (snd (Write via_iw p st)) = snd (Write (ResponseWriter (iw st)) p (ext st))
   \<and> iw (snd (Write via_iw p st)) =
        (iw st)\<lparr>written := written (iw st)
           + word_of_int (fst (fst (Write (ResponseWriter (iw st)) p (ext st))))\<rparr>
   \<and> (0 < length (finalizer s) \<longrightarrow>
        ServeHTTP kH kS s w r u =
          (let (ctx, tr, st) = ServeHTTP_body s via_iw r
                 (Context r, [], \<lparr> ext = u, iw = \<lparr> ResponseWriter = w, code = 200, written = 0 \<rparr> \<rparr>);
               (tr, st) = ServeHTTP_deferred kH kS s r (ctx, tr, st)
           in (tr, ext st)))"
  by (simp add: interceptingWriter_WriteHeader_def interceptingWriter_Write_def via_iw_def
      ServeHTTP_def StatusOK_def Let_def split: prod.splits)

theorem interceptingWriter_pass_through_witness:
  "0 < length (finalizer (sample_server (Inl empty_body) (\<lambda>ctx err w st. snd (Write w ''abcde'' st))))
   \<and> ServeHTTP 0 1 (sample_server (Inl empty_body) (\<lambda>ctx err w st. snd (Write w ''abcde'' st)))
        (logging (stub short_write)) \<lparr> Context = [], payload = () \<rparr> ((), []) =
      ([Call_dec [] (Inl empty_body),
        Call_errorHandler [] empty_body,
        Call_errorEncoder [] empty_body,
        Call_finalizer 0
          [(1, Int64_val 3), (0, Headers_ref (Header (logging (stub short_write))))] 200],
       ((), [Write_call ''abcde'']))
   \<and> interceptingWriter_Write
        \<lparr> ResponseWriter = logging (stub short_write), code = 200, written = 40 \<rparr>
        ''abcde'' ((), []) =
      ((3, Some (GoError ''short write'' None None None)),
       \<lparr> ResponseWriter = logging (stub short_write), code = 200, written = 43 \<rparr>,
       ((), [Write_call ''abcde'']))"
  using interceptingWriter_pass_through
    [where s = "sample_server (Inl empty_body) (\<lambda>ctx err w st. snd (Write w ''abcde'' st))"
       and w = "logging (stub short_write)" and r = "\<lparr> Context = [], payload = () \<rparr>"
       and u = "((), [])" and kH = 0 and kS = 1
       and i = "\<lparr> ResponseWriter = logging (stub short_write), code = 200, written = 40 \<rparr>"
       and p = "''abcde''"]
  by (simp add: sample_server_def empty_body_def eval_defs short_write_def)

text \<open>
  Claim C6. For every value \<open>v\<close> and code \<open>c\<close>, \<^verbatim>\<open>AddStatusCode(v, c)\<close> has
  \<^verbatim>\<open>StatusCode() = c\<close> and \<^verbatim>\<open>MarshalJSON() = json.Marshal(v)\<close>, and its run-time
  type offers \<^verbatim>\<open>StatusCoder\<close> with that code and no \<^verbatim>\<open>Headerer\<close>. When \<open>v\<close>
  marshals to \<open>b\<close> (which the library's compaction leaves as it is),
  \<^verbatim>\<open>EncodeJSONResponse\<close> on \<^verbatim>\<open>AddStatusCode(v, 201)\<close> sets the JSON content type,
  writes the status code 201 and writes the body \<open>b\<close> with the encoder's terminating
  newline: the body it writes for \<open>v\<close> itself, where the status code is 200.
\<close>

theorem AddStatusCode_capabilities:
  "ReponseCode_StatusCode (AddStatusCode v c) = c
   \<and> ReponseCode_MarshalJSON marshal (AddStatusCode v c) = marshal v
   \<and> asStatusCoder_of (ReponseCode_probes compact MarshalerError marshal) (AddStatusCode v c) = Some c
   \<and> asHeaderer_of (ReponseCode_probes compact MarshalerError marshal) (AddStatusCode v c) = None
   \<and> (marshal v = Inr b \<and> compact b = Inr b \<longrightarrow>
        json_Marshal (ReponseCode_probes compact MarshalerError marshal) (AddStatusCode v c) = marshal v
        \<and> EncodeJSONResponse (ReponseCode_probes compact MarshalerError marshal) ctx (logging w)
            (AddStatusCode v 201) (s, []) =
          (snd (fst (Write w (b @ [CHR 0x0A])
             (WriteHeader w 201 (Header_Set w ''Content-Type'' ''application/json; charset=utf-8'' s)))),
           snd (Write w (b @ [CHR 0x0A])
             (WriteHeader w 201 (Header_Set w ''Content-Type'' ''application/json; charset=utf-8'' s))),
           [Set_call ''Content-Type'' ''application/json; charset=utf-8'',
            WriteHeader_call 201, Write_call (b @ [CHR 0x0A])])
        \<and> snd (snd (EncodeJSONResponse
             \<lparr> asHeaderer_of = (\<lambda>x. None), asStatusCoder_of = (\<lambda>x. None), json_Marshal = marshal \<rparr>
             ctx (logging w) v (s, []))) =
           [Set_call ''Content-Type'' ''application/json; charset=utf-8'',
            WriteHeader_call 200, Write_call (b @ [CHR 0x0A])])"
  by (simp add: ReponseCode_StatusCode_def ReponseCode_MarshalJSON_def AddStatusCode_def
      ReponseCode_probes_def Marshal_Marshaler_def EncodeJSONResponse_def Encoder_Encode_def
      logging_simps StatusOK_def StatusNoContent_def split: prod.splits)

theorem AddStatusCode_capabilities_witness:
  \<open>(Inr ''{"id":1}'' :: error + bytes) = Inr ''{"id":1}''
   \<and> EncodeJSONResponse (ReponseCode_probes Inr id (\<lambda>v. Inr ''{"id":1}'')) () (logging (stub accept_all))
        (AddStatusCode (1::nat) 201) ((), []) =
      (None, (), [Set_call ''Content-Type'' ''application/json; charset=utf-8'',
            WriteHeader_call 201, Write_call (''{"id":1}'' @ [CHR 0x0A])])\<close>
  using AddStatusCode_capabilities [where marshal = \<open>\<lambda>v. Inr ''{"id":1}''\<close> and v = \<open>1::nat\<close>
      and b = \<open>''{"id":1}''\<close> and compact = Inr and MarshalerError = id and ctx = \<open>()\<close>
      and w = \<open>stub accept_all\<close> and s = \<open>()\<close> and c = 201]
  by (simp add: stub_def accept_all_def)

section \<open>Properties of Chunk\<close>

lemma exec_each_snoc:
  "exec_each exec (cs @ [c]) st =
     (fst (exec_each exec cs st) @ [fst (exec c (snd (exec_each exec cs st)))],
      snd (exec c (snd (exec_each exec cs st))))"
  by (induction cs arbitrary: st) (auto split: prod.splits)

lemma exec_each_Cons:
  "exec_each exec (c # cs) st =
     (fst (exec c st) # fst (exec_each exec cs (snd (exec c st))),
      snd (exec_each exec cs (snd (exec c st))))"
  by (auto split: prod.splits)

text \<open>The loop, started with a bucket that is not full: what it has executed and what is left.\<close>

lemma Chunk_loop_chunks:
  assumes "0 < n" "length bucket < n"
  shows "\<exists>cs rest. bucket @ items = concat cs @ rest
      \<and> length rest < n
      \<and> (\<forall>c \<in> set cs. length c = n)
      \<and> Chunk_loop (int n) exec items (bucket, int (length bucket), errs, st) =
          (rest, int (length rest), errs @ fst (exec_each exec cs st), snd (exec_each exec cs st))"
  using assms
proof (induction items arbitrary: bucket errs st)
  case Nil
  have "bucket @ [] = concat [] @ bucket" by simp
  moreover have "Chunk_loop (int n) exec [] (bucket, int (length bucket), errs, st) =
      (bucket, int (length bucket), errs @ fst (exec_each exec [] st), snd (exec_each exec [] st))"
    by simp
  ultimately show ?case using Nil.prems(2)
    by (metis empty_iff list.set(1))
next
  case (Cons item items)
  show ?case
  proof (cases "Suc (length bucket) = n")
    case True
    obtain e st1 where ex: "exec (bucket @ [item]) st = (e, st1)"
      by (cases "exec (bucket @ [item]) st")
    from Cons.IH [of "[]" "errs @ [e]" st1] Cons.prems(1)
    obtain cs rest where
      split: "items = concat cs @ rest" and short: "length rest < n"
      and full: "\<forall>c \<in> set cs. length c = n"
      and run: "Chunk_loop (int n) exec items ([], 0, errs @ [e], st1) =
          (rest, int (length rest), (errs @ [e]) @ fst (exec_each exec cs st1),
           snd (exec_each exec cs st1))"
      by auto
    let ?cs = "(bucket @ [item]) # cs"
    have "bucket @ item # items = concat ?cs @ rest" using split by simp
    moreover have "\<forall>c \<in> set ?cs. length c = n" using full True by auto
    moreover have "Chunk_loop (int n) exec (item # items) (bucket, int (length bucket), errs, st) =
        (rest, int (length rest), errs @ fst (exec_each exec ?cs st), snd (exec_each exec ?cs st))"
    proof -
      have "int (length bucket) + 1 = int n" using True by simp
      then show ?thesis using ex run by (simp split: prod.splits)
    qed
    ultimately show ?thesis using short by blast
  next
    case False
    then have lt: "length (bucket @ [item]) < n" using Cons.prems(2) by simp
    from Cons.IH [OF Cons.prems(1) lt, of errs st]
    obtain cs rest where
      split: "(bucket @ [item]) @ items = concat cs @ rest" and short: "length rest < n"
      and full: "\<forall>c \<in> set cs. length c = n"
      and run: "Chunk_loop (int n) exec items (bucket @ [item], int (length (bucket @ [item])), errs, st) =
          (rest, int (length rest), errs @ fst (exec_each exec cs st), snd (exec_each exec cs st))"
      by blast
    have ne: "int (length bucket) + 1 \<noteq> int n" using False by linarith
    have "Chunk_loop (int n) exec (item # items) (bucket, int (length bucket), errs, st) =
        (rest, int (length rest), errs @ fst (exec_each exec cs st), snd (exec_each exec cs st))"
      using run ne by (simp add: add.commute)
    then show ?thesis using split short full by auto
  qed
qed


lemma length_concat_full:
  assumes "\<forall>c \<in> set cs. length c = n"
  shows "length (concat cs) = n * length cs"
  using assms by (induction cs) simp_all

lemma ceiling_div_full:
  fixes n k l :: nat
  assumes "0 < n" "l < n"
  shows "(int (n * k + l) + int n - 1) div int n = int k + (if l = 0 then 0 else 1)"
proof (cases "l = 0")
  case True
  have "(int n * int k + (int n - 1)) div int n = int k"
    using assms(1) by simp
  then show ?thesis using True by (simp add: algebra_simps)
next
  case False
  have "(int n * (int k + 1) + (int l - 1)) div int n = int k + 1"
    using assms False by simp
  then show ?thesis using False by (simp add: algebra_simps)
qed

text \<open>
  Claim C10, as amended. For a chunk size \<open>sz\<close> of at least 1 that \<^verbatim>\<open>make\<close> accepts as
  a capacity, and a finite sequence of items, \<^verbatim>\<open>Chunk\<close> does not panic and runs
  \<^verbatim>\<open>exec\<close> once on each list of a list \<open>cs\<close> of lists, in order, and on nothing else,
  sending each result. The concatenation of \<open>cs\<close> is the sequence of items; the
  number of lists is the number of items divided by the size, rounded up; every list
  but the last has exactly \<open>sz\<close> items, the last has between 1 and \<open>sz\<close>; no list is
  empty, so for no items \<^verbatim>\<open>exec\<close> is not run at all.
\<close>

theorem Chunk_invocations:
  assumes "1 \<le> sz" and "makeslice_ok elem_size maxAlloc sz"
  shows "\<exists>cs. Chunk elem_size maxAlloc sz items exec st = Inr (exec_each exec cs st)
      \<and> concat cs = items
      \<and> int (length cs) = (int (length items) + sz - 1) div sz
      \<and> (\<forall>c \<in> set (butlast cs). int (length c) = sz)
      \<and> (cs \<noteq> [] \<longrightarrow> 1 \<le> length (last cs) \<and> int (length (last cs)) \<le> sz)
      \<and> [] \<notin> set cs"
proof -
  define n where "n = nat sz"
  have n: "0 < n" "sz = int n" using assms(1) by (simp_all add: n_def)
  have ok: "makeslice_ok elem_size maxAlloc (int n)" using assms(2) n(2) by simp
  from Chunk_loop_chunks [of n "[]" items exec "[]" st] n(1)
  obtain cs rest where
    split: "items = concat cs @ rest" and short: "length rest < n"
    and full: "\<forall>c \<in> set cs. length c = n"
    and run: "Chunk_loop (int n) exec items ([], 0, [], st) =
        (rest, int (length rest), fst (exec_each exec cs st), snd (exec_each exec cs st))"
    by auto
  have len: "length items = n * length cs + length rest"
    using split length_concat_full [OF full] by simp
  show ?thesis
  proof (cases "rest = []")
    case True
    have "Chunk elem_size maxAlloc sz items exec st = Inr (exec_each exec cs st)"
      using run True n ok by (simp add: Chunk_def)
    moreover have "concat cs = items" using split True by simp
    moreover have "int (length cs) = (int (length items) + sz - 1) div sz"
      using ceiling_div_full [OF n(1) short, of "length cs"] len True n(2) by simp
    moreover have "\<forall>c \<in> set (butlast cs). int (length c) = sz"
      using full n(2) by (auto dest: in_set_butlastD)
    moreover have "cs \<noteq> [] \<longrightarrow> 1 \<le> length (last cs) \<and> int (length (last cs)) \<le> sz"
      using full n by (auto simp: Suc_le_eq)
    moreover have "[] \<notin> set cs" using full n(1) by auto
    ultimately show ?thesis by blast
  next
    case False
    let ?cs = "cs @ [rest]"
    have "Chunk elem_size maxAlloc sz items exec st = Inr (exec_each exec ?cs st)"
      using run False n ok by (simp add: Chunk_def exec_each_snoc split: prod.splits)
    moreover have "concat ?cs = items" using split by simp
    moreover have "int (length ?cs) = (int (length items) + sz - 1) div sz"
      using ceiling_div_full [OF n(1) short, of "length cs"] len False n(2) by simp
    moreover have "\<forall>c \<in> set (butlast ?cs). int (length c) = sz"
      using full n(2) by auto
    moreover have "?cs \<noteq> [] \<longrightarrow> 1 \<le> length (last ?cs) \<and> int (length (last ?cs)) \<le> sz"
      using short False n(2) by (auto simp: Suc_le_eq)
    moreover have "[] \<notin> set ?cs" using full n(1) False by auto
    ultimately show ?thesis by blast
  qed
qed

theorem Chunk_invocations_witness:
  "(1::int) \<le> 2 \<and> makeslice_ok 8 281474976710656 2
   \<and> Chunk 8 281474976710656 2 [1, 2, 3, 4, 5 :: nat] note_items [] =
       Inr ([None, None, None], [[1, 2], [3, 4], [5]])
   \<and> Chunk 8 281474976710656 2 ([] :: nat list) note_items [] = Inr ([], [])"
  using Chunk_invocations [of 2 8 281474976710656 "[1, 2, 3, 4, 5 :: nat]" note_items "[]"]
  by (simp add: Chunk_def makeslice_ok_def note_items_def)

text \<open>
  Claim C10 as first stated, for every size of at least 1, fails: with 8-byte elements
  on linux/amd64 and the
  size \<^verbatim>\<open>math.MaxInt64\<close>, the first \<^verbatim>\<open>make\<close> panics and \<^verbatim>\<open>exec\<close> is never run,
  although three items are sent.
\<close>

theorem Chunk_invocations_counterexample:
  "(1::int) \<le> 9223372036854775807
   \<and> Chunk 8 281474976710656 9223372036854775807 [1, 2, 3 :: nat] note_items []
       = Inl Makeslice_cap_out_of_range"
  by (simp add: Chunk_def makeslice_ok_def)

end
